theory Spec2Isabelle
  imports Complex_Main "HOL-Library.AList"
begin

text \<open>
  A model of the signalling server: the message handler, the connection listeners and
  the heartbeat, as functions on an explicit server state. Each callback of the event
  loop is one step. The logger is taken to return normally and to change nothing, so a
  log line is left out unless building its text can throw: a template literal that
  prints \<^verbatim>\<open>message.type\<close> is kept, as the conversion to a string can fail.
\<close>

section \<open>Data model (types.ts)\<close>

text \<open>
  Values produced by \<^verbatim>\<open>JSON.parse\<close>. A number is kept as the text JavaScript prints
  for it (\<^verbatim>\<open>String(n)\<close>), which fixes the double but for the sign of zero: \<open>JNum ''0''\<close>
  is +0 and \<open>JNegZero\<close> is -0. A literal too large for a double, such as \<^verbatim>\<open>1e309\<close>,
  parses to \<open>JNum ''Infinity''\<close>. The properties of an object are an association list
  with one binding per key, read with \<open>map_of\<close>. Strings are lists of \<open>char\<close> (code units
  below 256).
\<close>

datatype json =
    JNull
  | JBool bool
  | JNum string
  | JNegZero
  | JStr string
  | JArr "json list"
  | JObj "(string \<times> json) list"

text \<open>
  JavaScript truthiness of a value that may be \<^verbatim>\<open>undefined\<close> (\<open>None\<close>): \<^verbatim>\<open>undefined\<close>,
  \<^verbatim>\<open>null\<close>, \<^verbatim>\<open>false\<close>, \<^verbatim>\<open>0\<close> and \<^verbatim>\<open>""\<close> are falsy, everything else is truthy.
\<close>

fun truthy :: "json option \<Rightarrow> bool" where
  "truthy None = False"
| "truthy (Some JNull) = False"
| "truthy (Some (JBool b)) = b"
| "truthy (Some (JNum n)) = (n \<noteq> ''0'' \<and> n \<noteq> ''NaN'')"
| "truthy (Some JNegZero) = False"
| "truthy (Some (JStr s)) = (s \<noteq> [])"
| "truthy (Some (JArr xs)) = True"
| "truthy (Some (JObj kvs)) = True"

text \<open>Truthiness of an optional string field such as \<^verbatim>\<open>ws.userId\<close>.\<close>

fun truthy_str :: "string option \<Rightarrow> bool" where
  "truthy_str None = False"
| "truthy_str (Some s) = (s \<noteq> [])"

text \<open>
  \<^verbatim>\<open>payload?.userId\<close>: reading a property of a parsed value. Only an object can own the
  property; \<^verbatim>\<open>undefined\<close> and \<^verbatim>\<open>null\<close> short-circuit, and primitives and arrays have no
  such property.
\<close>

fun get_prop :: "json option \<Rightarrow> string \<Rightarrow> json option" where
  "get_prop (Some (JObj kvs)) k = map_of kvs k"
| "get_prop _ k = None"

text \<open>
  \<^verbatim>\<open>String(v)\<close>, the conversion a template literal applies; \<open>None\<close> is the
  \<^verbatim>\<open>TypeError\<close> it throws. An object prints as \<^verbatim>\<open>[object Object]\<close> unless it has a
  property \<^verbatim>\<open>toString\<close> of its own: a parsed value is never callable, so the
  conversion finds no method that yields a primitive and throws. An array joins the
  texts of its elements with commas, \<^verbatim>\<open>null\<close> printing as nothing there.
\<close>

fun join_comma :: "string list \<Rightarrow> string" where
  "join_comma [] = []"
| "join_comma [x] = x"
| "join_comma (x # y # ys) = x @ '','' @ join_comma (y # ys)"

primrec text_of :: "json \<Rightarrow> string option" where
  "text_of JNull = Some ''null''"
| "text_of (JBool b) = Some (if b then ''true'' else ''false'')"
| "text_of (JNum n) = Some n"
| "text_of JNegZero = Some ''0''"
| "text_of (JStr s) = Some s"
| "text_of (JArr xs) =
     map_option join_comma
       (those (map (\<lambda>(x, t). if x = JNull then Some [] else t) (zip xs (map text_of xs))))"
| "text_of (JObj kvs) =
     (if map_of kvs ''toString'' \<noteq> None then None else Some ''[object Object]'')"

fun to_string :: "json option \<Rightarrow> string option" where
  "to_string None = Some ''undefined''"
| "to_string (Some v) = text_of v"

definition cannot_convert :: string where
  "cannot_convert = ''Cannot convert object to primitive value''"

text \<open>
  What \<^verbatim>\<open>JSON.stringify\<close> writes for a value, as the value a reader parses from it. JSON
  has no text for a number that is not finite, so it is written \<^verbatim>\<open>null\<close>, and -0 is
  written \<^verbatim>\<open>0\<close>; everything else is written as it is.
\<close>

primrec written :: "json \<Rightarrow> json" where
  "written JNull = JNull"
| "written (JBool b) = JBool b"
| "written (JNum n) =
     (if n = ''Infinity'' \<or> n = ''-Infinity'' \<or> n = ''NaN'' then JNull else JNum n)"
| "written JNegZero = JNum ''0''"
| "written (JStr s) = JStr s"
| "written (JArr xs) = JArr (map written xs)"
| "written (JObj kvs) = JObj (map (map_prod id written) kvs)"

text \<open>
  \<^verbatim>\<open>String.prototype.trim\<close> on code units below 256: tab, line feed, vertical tab, form
  feed, carriage return, space and no-break space are stripped from both ends.
\<close>

definition is_white :: "char \<Rightarrow> bool" where
  "is_white c \<longleftrightarrow>
     c \<in> set [CHR 0x09, CHR 0x0A, CHR 0x0B, CHR 0x0C, CHR 0x0D, CHR 0x20, CHR 0xA0]"

definition trim :: "string \<Rightarrow> string" where
  "trim s = rev (dropWhile is_white (rev (dropWhile is_white s)))"

text \<open>
  \<^verbatim>\<open>SignalingMessage\<close>, as it is at run time: every field may be absent or carry any
  parsed value, the \<open>type\<close> too (the \<^verbatim>\<open>MessageType\<close> enum is its wire strings, and
  anything else is an unknown type); \<open>others\<close> holds the properties of the received
  object that the interface does not name (the object spread of the relay branch copies
  them too). \<open>stringify\<close> is \<^verbatim>\<open>JSON.stringify\<close> on an envelope: every field is written
  as \<open>written\<close> says, and an absent field stays absent.
\<close>

record signaling_message =
  type :: "json option"
  payload :: "json option"
  target :: "json option"
  sender :: "json option"
  originalType :: "json option"
  others :: "(string \<times> json) list"

definition stringify :: "signaling_message \<Rightarrow> signaling_message" where
  "stringify m =
     \<lparr>type = map_option written (type m), payload = map_option written (payload m),
      target = map_option written (target m), sender = map_option written (sender m),
      originalType = map_option written (originalType m),
      others = map (map_prod id written) (others m)\<rparr>"

abbreviation Login :: string where "Login \<equiv> ''login''"
abbreviation LoginSuccess :: string where "LoginSuccess \<equiv> ''login_success''"
abbreviation RegisterPush :: string where "RegisterPush \<equiv> ''register_push''"
abbreviation PushRegistered :: string where "PushRegistered \<equiv> ''push_registered''"
abbreviation Offer :: string where "Offer \<equiv> ''offer''"
abbreviation Answer :: string where "Answer \<equiv> ''answer''"
abbreviation Candidate :: string where "Candidate \<equiv> ''candidate''"
abbreviation MessageRequest :: string where "MessageRequest \<equiv> ''message_request''"
abbreviation UserLeft :: string where "UserLeft \<equiv> ''user_left''"
abbreviation Error :: string where "Error \<equiv> ''error''"
abbreviation Info :: string where "Info \<equiv> ''info''"

text \<open>
  The socket states this server can observe. A socket handed to the \<^verbatim>\<open>connection\<close>
  listener is already open, so \<^verbatim>\<open>CONNECTING\<close> never occurs.
\<close>

datatype ready_state = OPEN | CLOSING | CLOSED

text \<open>
  \<^verbatim>\<open>WebSocketClient\<close>: the three fields the server attaches to a socket, the socket's
  \<open>readyState\<close>, the frames handed to \<^verbatim>\<open>ws.send\<close> (\<open>sent\<close>, each frame as the envelope
  its text denotes) and the number of probes written by \<^verbatim>\<open>ws.ping\<close> (\<open>pings\<close>).
\<close>

record ws_client =
  clientId :: "string option"
  userId :: "string option"
  isAlive :: bool
  readyState :: ready_state
  sent :: "signaling_message list"
  pings :: nat

text \<open>
  The server's state. Sockets are objects with identity: \<open>conns\<close> is the store from
  socket references to sockets and \<open>next_conn\<close> the next fresh reference. \<open>clients\<close> is
  the module-level \<^verbatim>\<open>Map\<close> from user id to socket reference, in insertion order;
  \<open>wss_clients\<close> is the \<^verbatim>\<open>wss.clients\<close> set kept by the socket library.
\<close>

record server =
  conns :: "nat \<Rightarrow> ws_client"
  next_conn :: nat
  clients :: "(string \<times> nat) list"
  wss_clients :: "nat list"

section \<open>The external store (db.ts)\<close>

text \<open>
  \<^verbatim>\<open>pool.query\<close> is outside the program: its outcome for each statement is an input.
  \<open>select_push_token u\<close> is the outcome of the \<^verbatim>\<open>SELECT\<close> for user \<open>u\<close> (the
  \<^verbatim>\<open>push_token\<close> column of the rows, or a failure), \<open>upsert_push_token u t\<close> that of
  the \<^verbatim>\<open>INSERT ... ON CONFLICT\<close>.
\<close>

datatype 'r query_result = QueryOk 'r | QueryError string

record pool =
  select_push_token :: "string \<Rightarrow> string list query_result"
  upsert_push_token :: "string \<Rightarrow> string \<Rightarrow> unit query_result"

text \<open>Both functions log and rethrow a failed query; \<open>Inl\<close> is the rethrown error.\<close>

definition saveOrUpdatePushToken :: "pool \<Rightarrow> string \<Rightarrow> string \<Rightarrow> string + unit" where
  "saveOrUpdatePushToken p uid pushToken =
     (case upsert_push_token p uid pushToken of
        QueryOk u \<Rightarrow> Inr ()
      | QueryError e \<Rightarrow> Inl e)"

definition getPushToken :: "pool \<Rightarrow> string \<Rightarrow> string + string option" where
  "getPushToken p uid =
     (case select_push_token p uid of
        QueryOk rows \<Rightarrow> (case rows of r # rest \<Rightarrow> Inr (Some r) | [] \<Rightarrow> Inr None)
      | QueryError e \<Rightarrow> Inl e)"

section \<open>Sending (wsUtils.ts)\<close>

text \<open>
  \<^verbatim>\<open>sendWsMessage\<close> writes \<^verbatim>\<open>JSON.stringify(message)\<close> only when the socket is open;
  otherwise it logs and drops the message.
\<close>

definition sendWsMessage :: "server \<Rightarrow> nat \<Rightarrow> signaling_message \<Rightarrow> server" where
  "sendWsMessage w ws message =
     (if readyState (conns w ws) = OPEN
      then w\<lparr>conns := (conns w)(ws :=
             (conns w ws)\<lparr>sent := sent (conns w ws) @ [stringify message]\<rparr>)\<rparr>
      else w)"

text \<open>
  \<^verbatim>\<open>broadcast\<close> walks the registry in insertion order and sends to every entry whose
  socket is not the excluded one (compared by reference).
\<close>

definition broadcast :: "server \<Rightarrow> signaling_message \<Rightarrow> nat option \<Rightarrow> server" where
  "broadcast w message senderWs =
     fold (\<lambda>(k, client) acc.
             if Some client \<noteq> senderWs then sendWsMessage acc client message else acc)
          (clients w) w"

text \<open>
  \<^verbatim>\<open>ws.terminate()\<close> of the socket library: nothing on a closed socket, otherwise the
  socket is destroyed and its state becomes \<^verbatim>\<open>CLOSING\<close>; the library emits \<^verbatim>\<open>close\<close>
  later.
\<close>

definition terminate :: "server \<Rightarrow> nat \<Rightarrow> server" where
  "terminate w ws =
     (if readyState (conns w ws) = CLOSED then w
      else w\<lparr>conns := (conns w)(ws := (conns w ws)\<lparr>readyState := CLOSING\<rparr>)\<rparr>)"

section \<open>The message handler (messageHandler.ts)\<close>

definition error_reply :: "string \<Rightarrow> json option \<Rightarrow> signaling_message" where
  "error_reply text ot =
     \<lparr>type = Some (JStr Error), payload = Some (JObj [(''message'', JStr text)]), target = None,
      sender = None, originalType = ot, others = []\<rparr>"

definition login_success :: "string \<Rightarrow> signaling_message" where
  "login_success u =
     \<lparr>type = Some (JStr LoginSuccess), payload = Some (JObj [(''userId'', JStr u)]), target = None,
      sender = None, originalType = None, others = []\<rparr>"

text \<open>
  The \<^verbatim>\<open>push_registered\<close> reply reads \<^verbatim>\<open>ws.userId\<close> when it is built; a property that is
  \<^verbatim>\<open>undefined\<close> is not written.
\<close>

definition push_registered :: "string option \<Rightarrow> signaling_message" where
  "push_registered u =
     \<lparr>type = Some (JStr PushRegistered),
      payload = Some (JObj (case u of Some s \<Rightarrow> [(''userId'', JStr s)] | None \<Rightarrow> [])),
      target = None, sender = None, originalType = None, others = []\<rparr>"

definition info_notice :: "string \<Rightarrow> signaling_message" where
  "info_notice text =
     \<lparr>type = Some (JStr Info), payload = Some (JStr text), target = None,
      sender = None, originalType = None, others = []\<rparr>"

definition user_left :: "string \<Rightarrow> signaling_message" where
  "user_left u =
     \<lparr>type = Some (JStr UserLeft), payload = Some (JObj [(''userId'', JStr u)]), target = None,
      sender = None, originalType = None, others = []\<rparr>"

text \<open>
  What a block of the handler does: it completes with a state, or an exception escapes
  it, leaving the state as it was at the throw.
\<close>

datatype outcome = Returned server | Thrown string server

text \<open>
  The \<^verbatim>\<open>Login\<close> case. The three tests of the first \<^verbatim>\<open>if\<close> (falsy, not a string, blank
  after \<open>trim\<close>) reject everything but a string that is not blank.
\<close>

definition login_case :: "server \<Rightarrow> nat \<Rightarrow> signaling_message \<Rightarrow> outcome" where
  "login_case w ws message =
     (let uid = get_prop (payload message) ''userId'' in
      case uid of
        Some (JStr u) \<Rightarrow>
          if \<not> truthy uid \<or> trim u = [] then
            Returned (sendWsMessage w ws
              (error_reply ''Valid User ID is required for login'' (type message)))
          else if map_of (clients w) u \<noteq> None then
            Returned (terminate
              (sendWsMessage w ws
                (error_reply (''User ID '' @ u @ '' is already taken/logged in.'')
                   (type message)))
              ws)
          else
            (let w1 = w\<lparr>conns := (conns w)(ws := (conns w ws)\<lparr>clientId := None\<rparr>)\<rparr>;
                 w2 = w1\<lparr>conns := (conns w1)(ws := (conns w1 ws)\<lparr>userId := Some u\<rparr>)\<rparr>;
                 w3 = w2\<lparr>clients := AList.update u ws (clients w2)\<rparr>
             in Returned (sendWsMessage w3 ws (login_success u)))
      | _ \<Rightarrow>
          Returned (sendWsMessage w ws
            (error_reply ''Valid User ID is required for login'' (type message))))"

text \<open>
  The \<^verbatim>\<open>RegisterPush\<close> case. The handler awaits the store: \<open>register_push_resume\<close> is
  what runs when the store has answered, on the state of that moment (it reads
  \<^verbatim>\<open>ws.userId\<close> again for the reply). \<open>register_push_case\<close> resumes at once: it is the
  case when no other callback runs during the wait. The failure of the store is caught
  inside the case.
\<close>

definition register_push_resume :: "server \<Rightarrow> nat \<Rightarrow> signaling_message \<Rightarrow> string + unit \<Rightarrow> outcome" where
  "register_push_resume w ws message saved =
     (case saved of
        Inr u \<Rightarrow> Returned (sendWsMessage w ws (push_registered (userId (conns w ws))))
      | Inl dbError \<Rightarrow>
          Returned (sendWsMessage w ws
            (error_reply ''Failed to save push token on server'' (type message))))"

definition register_push_case :: "pool \<Rightarrow> server \<Rightarrow> nat \<Rightarrow> signaling_message \<Rightarrow> outcome" where
  "register_push_case p w ws message =
     (case userId (conns w ws) of
        None \<Rightarrow>
          Returned (sendWsMessage w ws
            (error_reply ''Must be logged in to register push token'' (type message)))
      | Some uid \<Rightarrow>
          if \<not> truthy_str (Some uid) then
            Returned (sendWsMessage w ws
              (error_reply ''Must be logged in to register push token'' (type message)))
          else
            (let pushToken = get_prop (payload message) ''pushToken'' in
             case pushToken of
               Some (JStr t) \<Rightarrow>
                 if \<not> truthy pushToken \<or> trim t = [] then
                   Returned (sendWsMessage w ws
                     (error_reply ''Valid push token is required'' (type message)))
                 else register_push_resume w ws message (saveOrUpdatePushToken p uid t)
             | _ \<Rightarrow>
                 Returned (sendWsMessage w ws
                   (error_reply ''Valid push token is required'' (type message)))))"

text \<open>
  The relay case (\<^verbatim>\<open>Offer\<close>, \<^verbatim>\<open>Answer\<close>, \<^verbatim>\<open>Candidate\<close>, \<^verbatim>\<open>MessageRequest\<close>).
  The \<^verbatim>\<open>else\<close> of the liveness test awaits the store: \<open>offline_resume\<close> is what runs
  when the store has answered, on the state of that moment, and \<open>offline_branch\<close>
  resumes at once. The push itself is a comment in the source, so the branch only
  replies to the originator.
\<close>

definition offline_resume :: "server \<Rightarrow> nat \<Rightarrow> signaling_message \<Rightarrow> string \<Rightarrow> string + string option \<Rightarrow> outcome" where
  "offline_resume w ws message t looked =
     (case looked of
        Inr pushToken \<Rightarrow>
          if truthy_str pushToken then
            Returned (sendWsMessage w ws
              (info_notice (''User '' @ t @ '' is offline. Push notification required.'')))
          else
            Returned (sendWsMessage w ws
              (error_reply (''User '' @ t @ '' is offline and no push token is registered.'')
                 (type message)))
      | Inl dbError \<Rightarrow>
          Returned (sendWsMessage w ws
            (error_reply (''Server error checking offline status for '' @ t @ ''.'')
               (type message))))"

definition offline_branch :: "pool \<Rightarrow> server \<Rightarrow> nat \<Rightarrow> signaling_message \<Rightarrow> string \<Rightarrow> outcome" where
  "offline_branch p w ws message t = offline_resume w ws message t (getPushToken p t)"

text \<open>
  The forwarded envelope is the object spread of the received one with \<open>sender\<close>
  replaced by the originator's \<^verbatim>\<open>ws.userId\<close>.
\<close>

definition relay_case :: "pool \<Rightarrow> server \<Rightarrow> nat \<Rightarrow> signaling_message \<Rightarrow> outcome" where
  "relay_case p w ws message =
     (let targetId = target message; senderId = userId (conns w ws) in
      case senderId of
        None \<Rightarrow>
          Returned (sendWsMessage w ws
            (error_reply ''Cannot send message: Not logged in.'' (type message)))
      | Some sid \<Rightarrow>
          if \<not> truthy_str senderId then
            Returned (sendWsMessage w ws
              (error_reply ''Cannot send message: Not logged in.'' (type message)))
          else
            (case targetId of
               Some (JStr t) \<Rightarrow>
                 if \<not> truthy targetId then
                   Returned (sendWsMessage w ws
                     (error_reply ''Target user ID is required.'' (type message)))
                 else if \<not> truthy (payload message) then
                   Returned (sendWsMessage w ws
                     (error_reply ''Payload is missing.'' (type message)))
                 else
                   (case map_of (clients w) t of
                      Some targetClient \<Rightarrow>
                        if readyState (conns w targetClient) = OPEN then
                          Returned (sendWsMessage w targetClient
                            (message\<lparr>sender := Some (JStr sid)\<rparr>))
                        else offline_branch p w ws message t
                    | None \<Rightarrow> offline_branch p w ws message t)
             | _ \<Rightarrow>
                 Returned (sendWsMessage w ws
                   (error_reply ''Target user ID is required.'' (type message)))))"

text \<open>
  The \<^verbatim>\<open>default\<close> case prints \<^verbatim>\<open>message.type\<close> into its log line and into its reply;
  when the type cannot be converted the first of them throws. The reply carries no
  \<open>originalType\<close>.
\<close>

definition default_case :: "server \<Rightarrow> nat \<Rightarrow> signaling_message \<Rightarrow> outcome" where
  "default_case w ws message =
     (case to_string (type message) of
        None \<Rightarrow> Thrown cannot_convert w
      | Some printed \<Rightarrow>
          Returned (sendWsMessage w ws
            (error_reply (''Unknown message type: '' @ printed) None)))"

text \<open>The \<^verbatim>\<open>switch\<close> inside the \<^verbatim>\<open>try\<close>; the cases compare with \<^verbatim>\<open>===\<close>.\<close>

definition switch_body :: "pool \<Rightarrow> server \<Rightarrow> nat \<Rightarrow> signaling_message \<Rightarrow> outcome" where
  "switch_body p w ws message =
     (if type message = Some (JStr Login) then login_case w ws message
      else if type message = Some (JStr RegisterPush) then register_push_case p w ws message
      else if type message = Some (JStr Offer) \<or> type message = Some (JStr Answer)
              \<or> type message = Some (JStr Candidate)
              \<or> type message = Some (JStr MessageRequest)
      then relay_case p w ws message
      else default_case w ws message)"

text \<open>
  The \<^verbatim>\<open>catch\<close> of the outer \<^verbatim>\<open>try\<close>. Its first statement is a log line that prints
  \<^verbatim>\<open>message.type\<close>: when that conversion throws, the exception leaves the handler and
  no reply is sent. Otherwise whatever escaped the switch becomes a reply to the
  originator, sent from the state the throw left behind.
\<close>

definition catch_all :: "nat \<Rightarrow> signaling_message \<Rightarrow> outcome \<Rightarrow> outcome" where
  "catch_all ws message r =
     (case r of
        Returned w' \<Rightarrow> Returned w'
      | Thrown err w1 \<Rightarrow>
          (case to_string (type message) of
             None \<Rightarrow> Thrown cannot_convert w1
           | Some printed \<Rightarrow>
               Returned (sendWsMessage w1 ws
                 (error_reply (''Server error handling message type '' @ printed)
                    (type message)))))"

text \<open>
  The handler, run to its end with no other callback in between: \<open>Returned\<close> when its
  promise resolves, \<open>Thrown\<close> when it rejects.
\<close>

definition handleWebSocketMessage :: "pool \<Rightarrow> server \<Rightarrow> nat \<Rightarrow> signaling_message \<Rightarrow> outcome" where
  "handleWebSocketMessage p w ws message = catch_all ws message (switch_body p w ws message)"

section \<open>Connection lifecycle and heartbeat (index.ts)\<close>

text \<open>
  The \<^verbatim>\<open>connection\<close> listener: the library has created the socket (a fresh reference,
  open, already in \<^verbatim>\<open>wss.clients\<close>); the listener gives it a provisional id, \<open>uuid\<close>,
  and marks it alive.
\<close>

definition on_connection :: "server \<Rightarrow> string \<Rightarrow> server" where
  "on_connection w uuid =
     (let ws = next_conn w in
      w\<lparr>conns := (conns w)(ws :=
           \<lparr>clientId = Some uuid, userId = None, isAlive = True, readyState = OPEN,
            sent = [], pings = 0\<rparr>),
        next_conn := Suc ws,
        wss_clients := wss_clients w @ [ws]\<rparr>)"

text \<open>The \<^verbatim>\<open>pong\<close> listener.\<close>

definition on_pong :: "server \<Rightarrow> nat \<Rightarrow> server" where
  "on_pong w ws = w\<lparr>conns := (conns w)(ws := (conns w ws)\<lparr>isAlive := True\<rparr>)\<rparr>"

text \<open>
  The \<^verbatim>\<open>message\<close> listener. Its input is what \<^verbatim>\<open>JSON.parse\<close> made of the frame: the
  parser's error, or the parsed envelope. An envelope whose \<open>type\<close> is falsy is refused.
  The listener then logs a line that prints the type and, when it is truthy, the target
  (\<open>received_line\<close>), and calls the handler. Whatever is thrown, by the parser, by the
  check, by the log line or by the handler, is answered with an error that has no
  \<open>originalType\<close>.
\<close>

definition received_line :: "signaling_message \<Rightarrow> string option" where
  "received_line parsedMessage =
     (case to_string (type parsedMessage) of
        None \<Rightarrow> None
      | Some printed \<Rightarrow>
          if truthy (target parsedMessage) then
            (case to_string (target parsedMessage) of
               None \<Rightarrow> None
             | Some to \<Rightarrow> Some (printed @ '' -> '' @ to))
          else Some (printed @ '' ''))"

definition on_message :: "pool \<Rightarrow> server \<Rightarrow> nat \<Rightarrow> string + signaling_message \<Rightarrow> server" where
  "on_message p w ws parsed =
     (case parsed of
        Inl e \<Rightarrow>
          sendWsMessage w ws
            (error_reply (''Invalid message format or processing error: '' @ e) None)
      | Inr parsedMessage \<Rightarrow>
          if \<not> truthy (type parsedMessage) then
            sendWsMessage w ws
              (error_reply
                (''Invalid message format or processing error: '' @ ''Message type is missing'')
                None)
          else if received_line parsedMessage = None then
            sendWsMessage w ws
              (error_reply
                (''Invalid message format or processing error: '' @ cannot_convert) None)
          else
            (case handleWebSocketMessage p w ws parsedMessage of
               Returned w' \<Rightarrow> w'
             | Thrown e w1 \<Rightarrow>
                 sendWsMessage w1 ws
                   (error_reply (''Invalid message format or processing error: '' @ e) None)))"

text \<open>
  The \<^verbatim>\<open>close\<close> listener: an identified socket whose user id is in the registry is
  removed, then the others are told.
\<close>

definition close_listener :: "server \<Rightarrow> nat \<Rightarrow> server" where
  "close_listener w ws =
     (case userId (conns w ws) of
        None \<Rightarrow> w
      | Some uid \<Rightarrow>
          if truthy_str (Some uid) \<and> map_of (clients w) uid \<noteq> None then
            broadcast (w\<lparr>clients := AList.delete uid (clients w)\<rparr>) (user_left uid) (Some ws)
          else w)"

text \<open>
  The library's \<^verbatim>\<open>close\<close> event: the socket is closed and leaves \<^verbatim>\<open>wss.clients\<close>, then
  the listener above runs.
\<close>

definition emit_close :: "server \<Rightarrow> nat \<Rightarrow> server" where
  "emit_close w ws =
     close_listener
       (w\<lparr>conns := (conns w)(ws := (conns w ws)\<lparr>readyState := CLOSED\<rparr>),
          wss_clients := removeAll ws (wss_clients w)\<rparr>)
       ws"

text \<open>
  The \<^verbatim>\<open>error\<close> listener: the same removal and notice, then the socket is terminated
  unless it is already closing or closed.
\<close>

definition error_listener :: "server \<Rightarrow> nat \<Rightarrow> server" where
  "error_listener w ws =
     (let w1 =
        (case userId (conns w ws) of
           None \<Rightarrow> w
         | Some uid \<Rightarrow>
             if truthy_str (Some uid) \<and> map_of (clients w) uid \<noteq> None then
               broadcast (w\<lparr>clients := AList.delete uid (clients w)\<rparr>) (user_left uid)
                 (Some ws)
             else w)
      in if readyState (conns w1 ws) \<noteq> CLOSED \<and> readyState (conns w1 ws) \<noteq> CLOSING
         then terminate w1 ws else w1)"

text \<open>
  \<^verbatim>\<open>ws.ping()\<close> of the socket library writes a probe on an open socket and nothing
  otherwise.
\<close>

definition ping :: "server \<Rightarrow> nat \<Rightarrow> server" where
  "ping w ws =
     (if readyState (conns w ws) = OPEN
      then w\<lparr>conns := (conns w)(ws := (conns w ws)\<lparr>pings := Suc (pings (conns w ws))\<rparr>)\<rparr>
      else w)"


definition heartbeat_visit :: "server \<Rightarrow> nat \<Rightarrow> server" where
  "heartbeat_visit w client =
     (if \<not> isAlive (conns w client) then terminate w client
      else ping (w\<lparr>conns := (conns w)(client := (conns w client)\<lparr>isAlive := False\<rparr>)\<rparr>) client)"

definition heartbeat :: "server \<Rightarrow> server" where
  "heartbeat w = fold (\<lambda>client acc. heartbeat_visit acc client) (wss_clients w) w"

section \<open>The server as an event system\<close>

text \<open>
  One event is one callback of the event loop, run to completion. The server starts
  with no socket and an empty registry.
\<close>

datatype event =
    Connection string
  | Message nat "string + signaling_message"
  | Pong nat
  | ErrorEvent nat
  | CloseEvent nat
  | HeartbeatTick

definition step :: "pool \<Rightarrow> server \<Rightarrow> event \<Rightarrow> server" where
  "step p w e =
     (case e of
        Connection uuid \<Rightarrow> on_connection w uuid
      | Message ws parsed \<Rightarrow> on_message p w ws parsed
      | Pong ws \<Rightarrow> on_pong w ws
      | ErrorEvent ws \<Rightarrow> error_listener w ws
      | CloseEvent ws \<Rightarrow> emit_close w ws
      | HeartbeatTick \<Rightarrow> heartbeat w)"

definition run :: "pool \<Rightarrow> server \<Rightarrow> event list \<Rightarrow> server" where
  "run p w es = fold (\<lambda>e acc. step p acc e) es w"

definition no_client :: ws_client where
  "no_client =
     \<lparr>clientId = None, userId = None, isAlive = False, readyState = CLOSED, sent = [],
      pings = 0\<rparr>"

definition initial :: server where
  "initial = \<lparr>conns = (\<lambda>ws. no_client), next_conn = 0, clients = [], wss_clients = []\<rparr>"

text \<open>A store with no token on file that accepts every write, for concrete runs.\<close>

definition empty_store :: pool where
  "empty_store =
     \<lparr>select_push_token = (\<lambda>u. QueryOk []), upsert_push_token = (\<lambda>u t. QueryOk ())\<rparr>"

definition login_envelope :: "string \<Rightarrow> signaling_message" where
  "login_envelope u =
     \<lparr>type = Some (JStr Login), payload = Some (JObj [(''userId'', JStr u)]), target = None,
      sender = None, originalType = None, others = []\<rparr>"

section \<open>Auxiliary notions\<close>

text \<open>
  The state a block of the handler leaves behind, however it ended.
\<close>

fun state_of :: "outcome \<Rightarrow> server" where
  "state_of (Returned w) = w"
| "state_of (Thrown e w) = w"

text \<open>
  States the server can be in: \<^verbatim>\<open>wss.clients\<close> is a set of existing sockets, every key of
  the registry is a user id that \<^verbatim>\<open>Login\<close> accepts, and every existing socket carries
  either its provisional id or a user id, never both and never neither.
\<close>

definition wf :: "server \<Rightarrow> bool" where
  "wf w \<longleftrightarrow>
     distinct (wss_clients w) \<and>
     (\<forall>c \<in> set (wss_clients w). c < next_conn w) \<and>
     (\<forall>kc \<in> set (clients w). trim (fst kc) \<noteq> []) \<and>
     (\<forall>c < next_conn w. (clientId (conns w c) = None) \<noteq> (userId (conns w c) = None))"

text \<open>
  Two frame conditions. \<open>same_frame\<close>: only \<open>sent\<close> lists may differ. \<open>quiet\<close>: the
  socket library's set and the liveness flags are as before, and no socket has been
  reopened.
\<close>

definition same_frame :: "server \<Rightarrow> server \<Rightarrow> bool" where
  "same_frame w w' \<longleftrightarrow>
     clients w' = clients w \<and> wss_clients w' = wss_clients w \<and> next_conn w' = next_conn w \<and>
     (\<forall>d. userId (conns w' d) = userId (conns w d) \<and> clientId (conns w' d) = clientId (conns w d)
        \<and> isAlive (conns w' d) = isAlive (conns w d) \<and> readyState (conns w' d) = readyState (conns w d)
        \<and> pings (conns w' d) = pings (conns w d))"

definition quiet :: "server \<Rightarrow> server \<Rightarrow> bool" where
  "quiet w w' \<longleftrightarrow>
     wss_clients w' = wss_clients w \<and> next_conn w' = next_conn w \<and>
     (\<forall>d. isAlive (conns w' d) = isAlive (conns w d) \<and> pings (conns w' d) = pings (conns w d)
        \<and> (readyState (conns w d) = CLOSED \<longrightarrow> readyState (conns w' d) = CLOSED)
        \<and> (readyState (conns w d) \<noteq> OPEN \<longrightarrow> readyState (conns w' d) \<noteq> OPEN))"

text \<open>
  A socket that exists, is not flagged alive, and is still tracked by the library unless
  it is closed.
\<close>

definition missing :: "nat \<Rightarrow> server \<Rightarrow> bool" where
  "missing c w \<longleftrightarrow>
     c < next_conn w \<and> \<not> isAlive (conns w c) \<and>
     (c \<in> set (wss_clients w) \<or> readyState (conns w c) = CLOSED)"


text \<open>
  A value that \<^verbatim>\<open>JSON.stringify\<close> writes as it is: no number in it is infinite,
  \<^verbatim>\<open>NaN\<close> or the negative zero.
\<close>

primrec plain :: "json \<Rightarrow> bool" where
  "plain JNull = True"
| "plain (JBool b) = True"
| "plain (JNum n) = (n \<noteq> ''Infinity'' \<and> n \<noteq> ''-Infinity'' \<and> n \<noteq> ''NaN'')"
| "plain JNegZero = False"
| "plain (JStr s) = True"
| "plain (JArr xs) = list_all id (map plain xs)"
| "plain (JObj kvs) = list_all snd (map (map_prod id plain) kvs)"






section \<open>Concrete runs\<close>

text \<open>
  One anonymous socket; alice logged in on socket 0; the same with a second, anonymous
  socket 1; alice and bob logged in on sockets 0 and 1; the state after socket 0,
  already alice, sends a login for bob; and the run in which alice's socket raises an
  error, a new socket logs in as alice, and the old socket's close event arrives; and
  alice and bob online after one tick that only alice has answered.
\<close>

definition one_socket :: server where
  "one_socket = run empty_store initial [Connection ''c-0'']"

definition alice_online :: server where
  "alice_online = run empty_store initial [Connection ''c-0'', Message 0 (Inr (login_envelope ''alice''))]"


definition alice_bob_online :: server where
  "alice_bob_online =
     run empty_store alice_online [Connection ''c-1'', Message 1 (Inr (login_envelope ''bob''))]"

definition relogin_state :: server where
  "relogin_state =
     state_of (handleWebSocketMessage empty_store alice_online 0 (login_envelope ''bob''))"

definition reconnect_race :: server where
  "reconnect_race =
     run empty_store alice_bob_online
       [ErrorEvent 0, Connection ''c-2'', Message 2 (Inr (login_envelope ''alice'')),
        CloseEvent 0]"


text \<open>
  An offer for bob whose originator filled in a sender of its own, and a store that
  holds a token for bob.
\<close>

definition offer_to_bob :: signaling_message where
  "offer_to_bob =
     \<lparr>type = Some (JStr Offer), payload = Some (JObj [(''sdp'', JStr ''v=0'')]),
      target = Some (JStr ''bob''), sender = Some (JStr ''mallory''), originalType = None,
      others = [(''seq'', JNum ''7'')]\<rparr>"


text \<open>
  The envelope that \<^verbatim>\<open>JSON.parse\<close> makes of the frame
  \<^verbatim>\<open>{"type":"offer","target":"bob","payload":1e309}\<close>, whose payload is the number
  \<^verbatim>\<open>Infinity\<close>, and of the frame \<^verbatim>\<open>{"type":{"toString":0}}\<close>, whose type is an
  object that cannot be converted to a string.
\<close>

definition overflow_offer :: signaling_message where
  "overflow_offer =
     \<lparr>type = Some (JStr Offer), payload = Some (JNum ''Infinity''),
      target = Some (JStr ''bob''), sender = None, originalType = None, others = []\<rparr>"

definition unprintable_envelope :: signaling_message where
  "unprintable_envelope =
     \<lparr>type = Some (JObj [(''toString'', JNum ''0'')]), payload = None, target = None,
      sender = None, originalType = None, others = []\<rparr>"

section \<open>Sending, terminating, broadcasting\<close>

lemma clients_sendWsMessage [simp]: "clients (sendWsMessage w c m) = clients w"
  by (simp add: sendWsMessage_def)

lemma wss_clients_sendWsMessage [simp]: "wss_clients (sendWsMessage w c m) = wss_clients w"
  by (simp add: sendWsMessage_def)

lemma next_conn_sendWsMessage [simp]: "next_conn (sendWsMessage w c m) = next_conn w"
  by (simp add: sendWsMessage_def)

lemma readyState_sendWsMessage [simp]:
  "readyState (conns (sendWsMessage w c m) d) = readyState (conns w d)"
  by (simp add: sendWsMessage_def)

lemma userId_sendWsMessage [simp]: "userId (conns (sendWsMessage w c m) d) = userId (conns w d)"
  by (simp add: sendWsMessage_def)

lemma clientId_sendWsMessage [simp]:
  "clientId (conns (sendWsMessage w c m) d) = clientId (conns w d)"
  by (simp add: sendWsMessage_def)

lemma isAlive_sendWsMessage [simp]:
  "isAlive (conns (sendWsMessage w c m) d) = isAlive (conns w d)"
  by (simp add: sendWsMessage_def)

lemma pings_sendWsMessage [simp]: "pings (conns (sendWsMessage w c m) d) = pings (conns w d)"
  by (simp add: sendWsMessage_def)

lemma sent_sendWsMessage:
  "sent (conns (sendWsMessage w c m) d) =
     sent (conns w d) @ (if d = c \<and> readyState (conns w c) = OPEN then [stringify m] else [])"
  by (simp add: sendWsMessage_def)

lemma conns_sendWsMessage_other: "d \<noteq> c \<Longrightarrow> conns (sendWsMessage w c m) d = conns w d"
  by (simp add: sendWsMessage_def)

lemma stringify_error_reply [simp]:
  "stringify (error_reply text ot) = error_reply text (map_option written ot)"
  by (simp add: stringify_def error_reply_def)

lemma stringify_login_success [simp]: "stringify (login_success u) = login_success u"
  by (simp add: stringify_def login_success_def)

lemma stringify_push_registered [simp]: "stringify (push_registered u) = push_registered u"
  by (cases u) (simp_all add: stringify_def push_registered_def)

lemma stringify_info_notice [simp]: "stringify (info_notice text) = info_notice text"
  by (simp add: stringify_def info_notice_def)

lemma stringify_user_left [simp]: "stringify (user_left u) = user_left u"
  by (simp add: stringify_def user_left_def)

lemma plain_written: "plain v \<Longrightarrow> written v = v"
proof (induction v)
  case (JArr xs)
  then show ?case by (simp add: list_all_iff map_idI)
next
  case (JObj kvs)
  have "map_prod id written kv = kv" if "kv \<in> set kvs" for kv
  proof -
    obtain k v where kv: "kv = (k, v)" by (cases kv)
    have "v \<in> Basic_BNFs.snds kv" by (simp add: kv)
    moreover have "plain v" using JObj.prems that by (auto simp: list_all_iff kv)
    ultimately show ?thesis using JObj.IH that by (simp add: kv)
  qed
  then show ?case by (simp add: map_idI)
qed simp_all

lemma clients_terminate [simp]: "clients (terminate w c) = clients w"
  by (simp add: terminate_def)

lemma wss_clients_terminate [simp]: "wss_clients (terminate w c) = wss_clients w"
  by (simp add: terminate_def)

lemma next_conn_terminate [simp]: "next_conn (terminate w c) = next_conn w"
  by (simp add: terminate_def)

lemma userId_terminate [simp]: "userId (conns (terminate w c) d) = userId (conns w d)"
  by (simp add: terminate_def)

lemma clientId_terminate [simp]: "clientId (conns (terminate w c) d) = clientId (conns w d)"
  by (simp add: terminate_def)

lemma isAlive_terminate [simp]: "isAlive (conns (terminate w c) d) = isAlive (conns w d)"
  by (simp add: terminate_def)

lemma sent_terminate [simp]: "sent (conns (terminate w c) d) = sent (conns w d)"
  by (simp add: terminate_def)

lemma pings_terminate [simp]: "pings (conns (terminate w c) d) = pings (conns w d)"
  by (simp add: terminate_def)

lemma readyState_terminate:
  "readyState (conns (terminate w c) d) =
     (if d = c \<and> readyState (conns w c) \<noteq> CLOSED then CLOSING else readyState (conns w d))"
  by (simp add: terminate_def)


lemma same_frame_refl [simp]: "same_frame w w" by (simp add: same_frame_def)

lemma same_frame_trans: "same_frame a b \<Longrightarrow> same_frame b c \<Longrightarrow> same_frame a c"
  by (simp add: same_frame_def)

lemma same_frame_send [simp]: "same_frame w (sendWsMessage w c m)"
  by (simp add: same_frame_def)

lemma same_frameD:
  assumes "same_frame w w'"
  shows "clients w' = clients w" "wss_clients w' = wss_clients w" "next_conn w' = next_conn w"
    "userId (conns w' d) = userId (conns w d)" "clientId (conns w' d) = clientId (conns w d)"
    "isAlive (conns w' d) = isAlive (conns w d)" "readyState (conns w' d) = readyState (conns w d)"
    "pings (conns w' d) = pings (conns w d)"
  using assms by (simp_all add: same_frame_def)

text \<open>
  A broadcast changes nothing but \<open>sent\<close> lists, and a socket receives one copy for each
  registry entry that points to it, provided it is open and not the excluded one.
\<close>

lemma fold_send_frame:
  "same_frame w (fold (\<lambda>(k, client) acc. if Some client \<noteq> ex then sendWsMessage acc client m else acc) xs w)"
proof (induction xs arbitrary: w)
  case Nil show ?case by simp
next
  case (Cons x xs)
  obtain k c where x: "x = (k, c)" by (cases x)
  show ?case
    using Cons.IH [of "if Some c \<noteq> ex then sendWsMessage w c m else w"]
    by (auto simp: x intro: same_frame_trans [OF same_frame_send])
qed

lemma fold_send_sent:
  "sent (conns (fold (\<lambda>(k, client) acc. if Some client \<noteq> ex then sendWsMessage acc client m else acc) xs w) d)
     = sent (conns w d) @
       replicate (if readyState (conns w d) = OPEN \<and> Some d \<noteq> ex
                  then length (filter (\<lambda>kc. snd kc = d) xs) else 0) (stringify m)"
proof (induction xs arbitrary: w)
  case Nil show ?case by simp
next
  case (Cons x xs)
  obtain k c where x: "x = (k, c)" by (cases x)
  show ?case
    by (simp add: x Cons.IH sent_sendWsMessage replicate_append_same)
qed

lemma broadcast_frame: "same_frame w (broadcast w m ex)"
  unfolding broadcast_def by (rule fold_send_frame)

lemma broadcast_sent:
  "sent (conns (broadcast w m ex) d)
     = sent (conns w d) @
       replicate (if readyState (conns w d) = OPEN \<and> Some d \<noteq> ex
                  then length (filter (\<lambda>kc. snd kc = d) (clients w)) else 0) (stringify m)"
  unfolding broadcast_def by (rule fold_send_sent)

lemma quiet_refl [simp]: "quiet w w" by (simp add: quiet_def)

lemma quiet_trans: "quiet a b \<Longrightarrow> quiet b c \<Longrightarrow> quiet a c"
  by (simp add: quiet_def)

lemma quiet_send [simp]: "quiet w (sendWsMessage w c m)"
  by (simp add: quiet_def)

lemma quiet_terminate [simp]: "quiet w (terminate w c)"
  by (simp add: quiet_def readyState_terminate)

lemma quiet_send_terminate [simp]: "quiet w (terminate (sendWsMessage w c m) c')"
  by (rule quiet_trans [OF quiet_send quiet_terminate])

lemma quiet_same_frame: "same_frame w w' \<Longrightarrow> quiet w w'"
  by (simp add: quiet_def same_frame_def)

lemma quiet_D:
  assumes "quiet w w'"
  shows "wss_clients w' = wss_clients w" "next_conn w' = next_conn w"
    "isAlive (conns w' d) = isAlive (conns w d)" "pings (conns w' d) = pings (conns w d)"
    "readyState (conns w d) = CLOSED \<Longrightarrow> readyState (conns w' d) = CLOSED"
    "readyState (conns w d) \<noteq> OPEN \<Longrightarrow> readyState (conns w' d) \<noteq> OPEN"
  using assms by (simp_all add: quiet_def)

lemma quiet_broadcast_after_delete:
  "quiet w (broadcast (w\<lparr>clients := reg\<rparr>) m ex)"
proof -
  have "quiet (w\<lparr>clients := reg\<rparr>) (broadcast (w\<lparr>clients := reg\<rparr>) m ex)"
    by (rule quiet_same_frame [OF broadcast_frame])
  then show ?thesis by (simp add: quiet_def)
qed

section \<open>The registry as an association list\<close>

lemma map_of_delete_same [simp]: "map_of (AList.delete k al) k = None"
  by (simp add: AList.delete_conv)

lemma delete_absent: "map_of al k = None \<Longrightarrow> AList.delete k al = al"
  by (induction al) (auto simp: AList.delete_eq split: if_splits)

lemma update_absent: "map_of al k = None \<Longrightarrow> AList.update k v al = al @ [(k, v)]"
  by (induction al) (auto split: if_splits)

lemma set_update_subset: "set (AList.update k v al) \<subseteq> insert (k, v) (set al)"
  by (induction al) auto

lemma count_entries_distinct:
  "distinct (map snd xs) \<Longrightarrow>
     length (filter (\<lambda>kc. snd kc = d) xs) = (if d \<in> snd ` set xs then 1 else 0)"
  by (induction xs) (auto simp: image_iff)

lemma distinct_snd_delete:
  "distinct (map snd xs) \<Longrightarrow> distinct (map snd (AList.delete k xs))"
  by (simp add: AList.delete_eq distinct_map_filter)

section \<open>How the handler ends\<close>

text \<open>
  Every case but the default returns. The default case, and with it the handler, throws
  exactly when the type cannot be converted to a string; a handler that returns has
  returned from the switch.
\<close>

lemma trim_Nil [simp]: "trim [] = []"
  by (simp add: trim_def)

lemma login_case_returns: "\<exists>w'. login_case w ws m = Returned w'"
  by (simp add: login_case_def Let_def split: option.split json.split)

lemma register_push_resume_returns: "\<exists>w'. register_push_resume w ws m saved = Returned w'"
  by (simp add: register_push_resume_def split: sum.split)

lemma register_push_case_returns: "\<exists>w'. register_push_case p w ws m = Returned w'"
  using register_push_resume_returns
  by (simp add: register_push_case_def Let_def split: option.split json.split)

lemma offline_resume_returns: "\<exists>w'. offline_resume w ws m t looked = Returned w'"
  by (simp add: offline_resume_def split: sum.split)

lemma offline_branch_returns: "\<exists>w'. offline_branch p w ws m t = Returned w'"
  by (simp add: offline_branch_def offline_resume_returns)

lemma relay_case_returns: "\<exists>w'. relay_case p w ws m = Returned w'"
  using offline_branch_returns
  by (simp add: relay_case_def Let_def split: option.split json.split)

lemma default_case_cases:
  "(\<exists>w'. default_case w ws m = Returned w')
   \<or> (default_case w ws m = Thrown cannot_convert w \<and> to_string (type m) = None)"
  by (simp add: default_case_def split: option.split)

lemma switch_body_cases:
  "(\<exists>w'. switch_body p w ws m = Returned w')
   \<or> (switch_body p w ws m = Thrown cannot_convert w \<and> to_string (type m) = None)"
  using login_case_returns register_push_case_returns relay_case_returns default_case_cases
  by (simp add: switch_body_def)

lemma handler_cases:
  "(\<exists>w'. handleWebSocketMessage p w ws m = Returned w')
   \<or> (handleWebSocketMessage p w ws m = Thrown cannot_convert w \<and> to_string (type m) = None)"
  using switch_body_cases [of p w ws m]
  by (auto simp: handleWebSocketMessage_def catch_all_def)

lemma handler_returns:
  "to_string (type m) \<noteq> None \<Longrightarrow> \<exists>w'. handleWebSocketMessage p w ws m = Returned w'"
  using handler_cases [of p w ws m] by auto

lemma handler_returned_switch:
  "handleWebSocketMessage p w ws m = Returned w' \<Longrightarrow> switch_body p w ws m = Returned w'"
  using switch_body_cases [of p w ws m]
  by (auto simp: handleWebSocketMessage_def catch_all_def)

lemma handler_login:
  "type m = Some (JStr Login) \<Longrightarrow> handleWebSocketMessage p w ws m = login_case w ws m"
  using login_case_returns [of w ws m]
  by (auto simp: handleWebSocketMessage_def switch_body_def catch_all_def)

lemma handler_relay:
  "type m = Some (JStr Offer) \<or> type m = Some (JStr Answer) \<or> type m = Some (JStr Candidate)
     \<or> type m = Some (JStr MessageRequest) \<Longrightarrow>
     handleWebSocketMessage p w ws m = relay_case p w ws m"
  using relay_case_returns [of p w ws m]
  by (auto simp: handleWebSocketMessage_def switch_body_def catch_all_def)

lemma handler_register_push:
  "type m = Some (JStr RegisterPush) \<Longrightarrow> handleWebSocketMessage p w ws m = register_push_case p w ws m"
  using register_push_case_returns [of p w ws m]
  by (auto simp: handleWebSocketMessage_def switch_body_def catch_all_def)


lemma login_case_fresh:
  assumes "get_prop (payload m) ''userId'' = Some (JStr u)" "trim u \<noteq> []"
    "map_of (clients w) u = None"
  shows "login_case w ws m =
           Returned (sendWsMessage
             (w\<lparr>conns := (conns w)(ws := (conns w ws)\<lparr>clientId := None, userId := Some u\<rparr>),
                clients := AList.update u ws (clients w)\<rparr>) ws (login_success u))"
proof -
  have "u \<noteq> []" using assms(2) by auto
  then show ?thesis using assms by (simp add: login_case_def Let_def)
qed



lemma relay_type_written:
  assumes "type m = Some (JStr Offer) \<or> type m = Some (JStr Answer) \<or> type m = Some (JStr Candidate)
     \<or> type m = Some (JStr MessageRequest)"
  shows "map_option written (type m) = type m"
  using assms by auto


lemma relay_case_forward:
  assumes "userId (conns w ws) = Some u" "u \<noteq> []" "target m = Some (JStr t)" "t \<noteq> []"
    "truthy (payload m)" "map_of (clients w) t = Some tc" "readyState (conns w tc) = OPEN"
  shows "relay_case p w ws m = Returned (sendWsMessage w tc (m\<lparr>sender := Some (JStr u)\<rparr>))"
  using assms by (simp add: relay_case_def)

lemma login_case_quiet: "login_case w ws m = Returned w' \<Longrightarrow> quiet w w'"
proof -
  assume a: "login_case w ws m = Returned w'"
  have q: "quiet w (sendWsMessage
       (w\<lparr>conns := (conns w)(ws := (conns w ws)\<lparr>clientId := None, userId := Some u\<rparr>),
          clients := AList.update u ws (clients w)\<rparr>) ws (login_success u))" for u
    by (simp add: quiet_def)
  show ?thesis
    using a q by (auto simp: login_case_def Let_def split: option.splits json.splits if_splits)
qed

lemma register_push_resume_quiet:
  "register_push_resume w ws m saved = Returned w' \<Longrightarrow> quiet w w'"
  by (auto simp: register_push_resume_def split: sum.splits)

lemma register_push_case_quiet: "register_push_case p w ws m = Returned w' \<Longrightarrow> quiet w w'"
  by (auto simp: register_push_case_def Let_def dest: register_push_resume_quiet
           split: option.splits json.splits if_splits)

lemma offline_resume_quiet: "offline_resume w ws m t looked = Returned w' \<Longrightarrow> quiet w w'"
  by (auto simp: offline_resume_def split: sum.splits if_splits)

lemma offline_branch_quiet: "offline_branch p w ws m t = Returned w' \<Longrightarrow> quiet w w'"
  by (auto simp: offline_branch_def dest: offline_resume_quiet)

lemma relay_case_quiet: "relay_case p w ws m = Returned w' \<Longrightarrow> quiet w w'"
  by (auto simp: relay_case_def Let_def dest: offline_branch_quiet
           split: option.splits json.splits if_splits)

lemma default_case_quiet: "default_case w ws m = Returned w' \<Longrightarrow> quiet w w'"
  by (auto simp: default_case_def split: option.splits)

lemma handler_quiet: "handleWebSocketMessage p w ws m = Returned w' \<Longrightarrow> quiet w w'"
  using handler_returned_switch [of p w ws m w']
  by (auto simp: switch_body_def
           dest: login_case_quiet register_push_case_quiet relay_case_quiet default_case_quiet
           split: if_splits)

lemma on_message_quiet: "quiet w (on_message p w ws parsed)"
proof (cases parsed)
  case (Inl e)
  then show ?thesis by (simp add: on_message_def)
next
  case (Inr m)
  from handler_cases [of p w ws m] show ?thesis
  proof
    assume "\<exists>w'. handleWebSocketMessage p w ws m = Returned w'"
    then obtain w' where h: "handleWebSocketMessage p w ws m = Returned w'" ..
    show ?thesis
      using handler_quiet [OF h] by (simp add: on_message_def Inr h)
  next
    assume "handleWebSocketMessage p w ws m = Thrown cannot_convert w \<and> to_string (type m) = None"
    then show ?thesis by (simp add: on_message_def Inr)
  qed
qed

section \<open>The close and error listeners\<close>

lemma close_listener_registered:
  assumes "userId (conns w c) = Some u" "u \<noteq> []" "map_of (clients w) u \<noteq> None"
  shows "close_listener w c
           = broadcast (w\<lparr>clients := AList.delete u (clients w)\<rparr>) (user_left u) (Some c)"
  using assms by (simp add: close_listener_def)

lemma close_listener_idle:
  assumes "userId (conns w c) = None \<or> (\<exists>u. userId (conns w c) = Some u \<and> map_of (clients w) u = None)"
  shows "close_listener w c = w"
  using assms by (auto simp: close_listener_def)

lemma error_listener_registered:
  assumes "userId (conns w c) = Some u" "u \<noteq> []" "map_of (clients w) u \<noteq> None"
  shows "error_listener w c
           = (let w1 = broadcast (w\<lparr>clients := AList.delete u (clients w)\<rparr>) (user_left u) (Some c)
              in if readyState (conns w1 c) \<noteq> CLOSED \<and> readyState (conns w1 c) \<noteq> CLOSING
                 then terminate w1 c else w1)"
  using assms by (simp add: error_listener_def)

lemma error_listener_idle:
  assumes "userId (conns w c) = None \<or> (\<exists>u. userId (conns w c) = Some u \<and> map_of (clients w) u = None)"
  shows "error_listener w c
           = (if readyState (conns w c) \<noteq> CLOSED \<and> readyState (conns w c) \<noteq> CLOSING
              then terminate w c else w)"
  using assms by (auto simp: error_listener_def)

lemma emit_close_registered:
  assumes "userId (conns w c) = Some u" "u \<noteq> []" "map_of (clients w) u \<noteq> None"
  shows "clients (emit_close w c) = AList.delete u (clients w)"
    and "userId (conns (emit_close w c) d) = userId (conns w d)"
    and "readyState (conns (emit_close w c) c) = CLOSED"
    and "sent (conns (emit_close w c) d) = sent (conns w d) @
           replicate (if d \<noteq> c \<and> readyState (conns w d) = OPEN
                      then length (filter (\<lambda>kc. snd kc = d) (AList.delete u (clients w))) else 0)
             (user_left u)"
proof -
  let ?w0 = "w\<lparr>conns := (conns w)(c := (conns w c)\<lparr>readyState := CLOSED\<rparr>),
               wss_clients := removeAll c (wss_clients w)\<rparr>"
  let ?w1 = "?w0\<lparr>clients := AList.delete u (clients ?w0)\<rparr>"
  have e: "emit_close w c = broadcast ?w1 (user_left u) (Some c)"
    using assms by (simp add: emit_close_def close_listener_def)
  have fr: "same_frame ?w1 (emit_close w c)"
    unfolding e by (rule broadcast_frame)
  show "clients (emit_close w c) = AList.delete u (clients w)"
    using same_frameD(1) [OF fr] by simp
  show "userId (conns (emit_close w c) d) = userId (conns w d)"
    using same_frameD(4) [OF fr, of d] by simp
  show "readyState (conns (emit_close w c) c) = CLOSED"
    using same_frameD(7) [OF fr, of c] by simp
  show "sent (conns (emit_close w c) d) = sent (conns w d) @
           replicate (if d \<noteq> c \<and> readyState (conns w d) = OPEN
                      then length (filter (\<lambda>kc. snd kc = d) (AList.delete u (clients w))) else 0)
             (user_left u)"
    by (cases "d = c") (simp_all add: e broadcast_sent)
qed

lemma error_listener_registered_facts:
  assumes "userId (conns w c) = Some u" "u \<noteq> []" "map_of (clients w) u \<noteq> None"
  shows "clients (error_listener w c) = AList.delete u (clients w)"
    and "userId (conns (error_listener w c) d) = userId (conns w d)"
    and "readyState (conns (error_listener w c) c) \<noteq> OPEN"
    and "sent (conns (error_listener w c) d) = sent (conns w d) @
           replicate (if d \<noteq> c \<and> readyState (conns w d) = OPEN
                      then length (filter (\<lambda>kc. snd kc = d) (AList.delete u (clients w))) else 0)
             (user_left u)"
proof -
  let ?w1 = "w\<lparr>clients := AList.delete u (clients w)\<rparr>"
  let ?b = "broadcast ?w1 (user_left u) (Some c)"
  have e: "error_listener w c
             = (if readyState (conns ?b c) \<noteq> CLOSED \<and> readyState (conns ?b c) \<noteq> CLOSING
                then terminate ?b c else ?b)"
    using error_listener_registered [OF assms] by (simp add: Let_def)
  have fr: "same_frame ?w1 ?b" by (rule broadcast_frame)
  show "clients (error_listener w c) = AList.delete u (clients w)"
    using same_frameD(1) [OF fr] by (simp add: e)
  show "userId (conns (error_listener w c) d) = userId (conns w d)"
    using same_frameD(4) [OF fr, of d] by (simp add: e)
  show "readyState (conns (error_listener w c) c) \<noteq> OPEN"
    by (cases "readyState (conns ?b c)") (simp_all add: e readyState_terminate)
  show "sent (conns (error_listener w c) d) = sent (conns w d) @
           replicate (if d \<noteq> c \<and> readyState (conns w d) = OPEN
                      then length (filter (\<lambda>kc. snd kc = d) (AList.delete u (clients w))) else 0)
             (user_left u)"
    by (cases "d = c") (simp_all add: e broadcast_sent)
qed

lemma emit_close_idle:
  assumes "userId (conns w c) = None \<or> (\<exists>u. userId (conns w c) = Some u \<and> map_of (clients w) u = None)"
  shows "clients (emit_close w c) = clients w"
    and "sent (conns (emit_close w c) d) = sent (conns w d)"
    and "userId (conns (emit_close w c) d) = userId (conns w d)"
proof -
  let ?w0 = "w\<lparr>conns := (conns w)(c := (conns w c)\<lparr>readyState := CLOSED\<rparr>),
               wss_clients := removeAll c (wss_clients w)\<rparr>"
  have "userId (conns ?w0 c) = None \<or> (\<exists>u. userId (conns ?w0 c) = Some u \<and> map_of (clients ?w0) u = None)"
    using assms by simp
  then have "emit_close w c = ?w0"
    unfolding emit_close_def by (rule close_listener_idle)
  then show "clients (emit_close w c) = clients w"
    and "sent (conns (emit_close w c) d) = sent (conns w d)"
    and "userId (conns (emit_close w c) d) = userId (conns w d)"
    by simp_all
qed

lemma error_listener_idle_facts:
  assumes "userId (conns w c) = None \<or> (\<exists>u. userId (conns w c) = Some u \<and> map_of (clients w) u = None)"
  shows "clients (error_listener w c) = clients w"
    and "sent (conns (error_listener w c) d) = sent (conns w d)"
    and "userId (conns (error_listener w c) d) = userId (conns w d)"
  by (simp_all add: error_listener_idle [OF assms])

lemma close_listener_quiet: "quiet w (close_listener w c)"
  by (simp add: close_listener_def quiet_broadcast_after_delete split: option.split)

lemma error_listener_quiet: "quiet w (error_listener w c)"
proof -
  let ?w1 = "case userId (conns w c) of None \<Rightarrow> w
     | Some uid \<Rightarrow> if truthy_str (Some uid) \<and> map_of (clients w) uid \<noteq> None
         then broadcast (w\<lparr>clients := AList.delete uid (clients w)\<rparr>) (user_left uid) (Some c)
         else w"
  have q1: "quiet w ?w1"
    by (simp add: quiet_broadcast_after_delete split: option.split)
  have "quiet w (terminate ?w1 c)"
    by (rule quiet_trans [OF q1 quiet_terminate])
  then show ?thesis
    using q1 unfolding error_listener_def Let_def by presburger
qed

lemma emit_close_socks:
  "wss_clients (emit_close w c) = removeAll c (wss_clients w)"
  "next_conn (emit_close w c) = next_conn w"
  "isAlive (conns (emit_close w c) d) = isAlive (conns w d)"
  "readyState (conns (emit_close w c) d) = (if d = c then CLOSED else readyState (conns w d))"
proof -
  let ?w0 = "w\<lparr>conns := (conns w)(c := (conns w c)\<lparr>readyState := CLOSED\<rparr>),
               wss_clients := removeAll c (wss_clients w)\<rparr>"
  have q: "quiet ?w0 (emit_close w c)"
    unfolding emit_close_def by (rule close_listener_quiet)
  have fr: "readyState (conns (emit_close w c) d) = readyState (conns ?w0 d)"
    by (cases "userId (conns w c)")
       (simp_all add: emit_close_def close_listener_def same_frameD(7) [OF broadcast_frame])
  show "wss_clients (emit_close w c) = removeAll c (wss_clients w)"
    using quiet_D(1) [OF q] by simp
  show "next_conn (emit_close w c) = next_conn w"
    using quiet_D(2) [OF q] by simp
  show "isAlive (conns (emit_close w c) d) = isAlive (conns w d)"
    using quiet_D(3) [OF q, of d] by simp
  show "readyState (conns (emit_close w c) d) = (if d = c then CLOSED else readyState (conns w d))"
    using fr by simp
qed

lemma run_one [simp]: "run p w [e] = step p w e"
  by (simp add: run_def)

lemma run_two [simp]: "run p w [e1, e2] = step p (step p w e1) e2"
  by (simp add: run_def)

lemma step_CloseEvent [simp]: "step p w (CloseEvent c) = emit_close w c"
  by (simp add: step_def)

lemma step_ErrorEvent [simp]: "step p w (ErrorEvent c) = error_listener w c"
  by (simp add: step_def)

lemma departure_events:
  assumes id: "userId (conns w c) = Some u" "u \<noteq> []"
    and reg: "map_of (clients w) u \<noteq> None"
    and es: "es \<in> {[CloseEvent c], [ErrorEvent c], [ErrorEvent c, CloseEvent c],
                     [CloseEvent c, ErrorEvent c]}"
  shows "clients (run p w es) = AList.delete u (clients w)"
    and "sent (conns (run p w es) d) = sent (conns w d) @
           replicate (if d \<noteq> c \<and> readyState (conns w d) = OPEN
                      then length (filter (\<lambda>kc. snd kc = d) (AList.delete u (clients w))) else 0)
             (user_left u)"
proof -
  note c1 = emit_close_registered [OF id reg]
  note e1 = error_listener_registered_facts [OF id reg]
  have idle_c: "userId (conns (emit_close w c) c) = None \<or>
      (\<exists>v. userId (conns (emit_close w c) c) = Some v \<and> map_of (clients (emit_close w c)) v = None)"
    using id by (simp add: c1(1) c1(2))
  have idle_e: "userId (conns (error_listener w c) c) = None \<or>
      (\<exists>v. userId (conns (error_listener w c) c) = Some v
            \<and> map_of (clients (error_listener w c)) v = None)"
    using id by (simp add: e1(1) e1(2))
  note c2 = error_listener_idle_facts [OF idle_c]
  note e2 = emit_close_idle [OF idle_e]
  from es consider "es = [CloseEvent c]" | "es = [ErrorEvent c]"
    | "es = [ErrorEvent c, CloseEvent c]" | "es = [CloseEvent c, ErrorEvent c]"
    by auto
  then show "clients (run p w es) = AList.delete u (clients w)"
    by cases (simp_all add: c1(1) e1(1) c2(1) e2(1))
  from es consider "es = [CloseEvent c]" | "es = [ErrorEvent c]"
    | "es = [ErrorEvent c, CloseEvent c]" | "es = [CloseEvent c, ErrorEvent c]"
    by auto
  then show "sent (conns (run p w es) d) = sent (conns w d) @
           replicate (if d \<noteq> c \<and> readyState (conns w d) = OPEN
                      then length (filter (\<lambda>kc. snd kc = d) (AList.delete u (clients w))) else 0)
             (user_left u)"
    by cases (simp_all only: run_one run_two step_CloseEvent step_ErrorEvent c1(4) e1(4) c2(2) e2(2))
qed







section \<open>The heartbeat\<close>

lemma heartbeat_visit_other: "d \<noteq> x \<Longrightarrow> conns (heartbeat_visit w x) d = conns w d"
  by (simp add: heartbeat_visit_def terminate_def ping_def)


lemma heartbeat_visit_fields [simp]:
  "clients (heartbeat_visit w x) = clients w"
  "wss_clients (heartbeat_visit w x) = wss_clients w"
  "next_conn (heartbeat_visit w x) = next_conn w"
  by (simp_all add: heartbeat_visit_def terminate_def ping_def)

lemma heartbeat_visit_ids [simp]:
  "userId (conns (heartbeat_visit w x) d) = userId (conns w d)"
  "clientId (conns (heartbeat_visit w x) d) = clientId (conns w d)"
  "sent (conns (heartbeat_visit w x) d) = sent (conns w d)"
  by (simp_all add: heartbeat_visit_def terminate_def ping_def)

lemma fold_visit_fields:
  "clients (fold (\<lambda>client acc. heartbeat_visit acc client) xs w) = clients w"
  "wss_clients (fold (\<lambda>client acc. heartbeat_visit acc client) xs w) = wss_clients w"
  "next_conn (fold (\<lambda>client acc. heartbeat_visit acc client) xs w) = next_conn w"
  "userId (conns (fold (\<lambda>client acc. heartbeat_visit acc client) xs w) d) = userId (conns w d)"
  "clientId (conns (fold (\<lambda>client acc. heartbeat_visit acc client) xs w) d) = clientId (conns w d)"
  "sent (conns (fold (\<lambda>client acc. heartbeat_visit acc client) xs w) d) = sent (conns w d)"
  by (induction xs arbitrary: w) simp_all



lemma heartbeat_fields [simp]:
  "clients (heartbeat w) = clients w"
  "wss_clients (heartbeat w) = wss_clients w"
  "next_conn (heartbeat w) = next_conn w"
  "userId (conns (heartbeat w) d) = userId (conns w d)"
  "clientId (conns (heartbeat w) d) = clientId (conns w d)"
  "sent (conns (heartbeat w) d) = sent (conns w d)"
  by (simp_all add: heartbeat_def fold_visit_fields)



lemma heartbeat_visit_not_alive: "\<not> isAlive (conns (heartbeat_visit w c) c)"
  by (simp add: heartbeat_visit_def ping_def)

lemma heartbeat_visit_isAlive_mono:
  "isAlive (conns (heartbeat_visit w x) d) \<Longrightarrow> isAlive (conns w d)"
  by (cases "d = x") (simp_all add: heartbeat_visit_not_alive heartbeat_visit_other)


lemma heartbeat_visit_closed_stays:
  "readyState (conns w d) = CLOSED \<Longrightarrow> readyState (conns (heartbeat_visit w x) d) = CLOSED"
  by (cases "d = x")
     (auto simp: heartbeat_visit_other heartbeat_visit_def ping_def readyState_terminate)

lemma fold_visit_isAlive_mono:
  "isAlive (conns (fold (\<lambda>client acc. heartbeat_visit acc client) xs w) d) \<Longrightarrow> isAlive (conns w d)"
  by (induction xs arbitrary: w) (auto dest: heartbeat_visit_isAlive_mono)

lemma fold_visit_closed_stays:
  "readyState (conns w d) = CLOSED \<Longrightarrow>
     readyState (conns (fold (\<lambda>client acc. heartbeat_visit acc client) xs w) d) = CLOSED"
  by (induction xs arbitrary: w) (auto simp: heartbeat_visit_closed_stays)


lemma heartbeat_isAlive_mono: "isAlive (conns (heartbeat w) d) \<Longrightarrow> isAlive (conns w d)"
  unfolding heartbeat_def by (rule fold_visit_isAlive_mono)

lemma heartbeat_closed_stays:
  "readyState (conns w d) = CLOSED \<Longrightarrow> readyState (conns (heartbeat w) d) = CLOSED"
  unfolding heartbeat_def by (rule fold_visit_closed_stays)

text \<open>
  Only a pong, or the creation of the socket, makes a socket alive; so a socket that
  is missing stays missing as long as it does not answer.
\<close>

lemma step_isAlive:
  assumes "isAlive (conns (step p w e) c)" and "\<not> isAlive (conns w c)"
  shows "e = Pong c \<or> (\<exists>uuid. e = Connection uuid \<and> c = next_conn w)"
proof (cases e)
  case (Connection uuid)
  then show ?thesis using assms by (auto simp: step_def on_connection_def Let_def split: if_splits)
next
  case (Message ws parsed)
  then show ?thesis using assms quiet_D(3) [OF on_message_quiet, of p w ws parsed c]
    by (simp add: step_def)
next
  case (Pong ws)
  then show ?thesis using assms by (auto simp: step_def on_pong_def split: if_splits)
next
  case (ErrorEvent ws)
  then show ?thesis using assms quiet_D(3) [OF error_listener_quiet, of w ws c]
    by (simp add: step_def)
next
  case (CloseEvent ws)
  then show ?thesis using assms by (simp add: emit_close_socks)
next
  case HeartbeatTick
  then show ?thesis using assms heartbeat_isAlive_mono by (auto simp: step_def)
qed

lemma step_missing:
  assumes "missing c w" and "e \<noteq> Pong c"
  shows "missing c (step p w e)"
proof -
  have lt: "c < next_conn w" and dead: "\<not> isAlive (conns w c)"
    and tr: "c \<in> set (wss_clients w) \<or> readyState (conns w c) = CLOSED"
    using assms(1) by (simp_all add: missing_def)
  have dead': "\<not> isAlive (conns (step p w e) c)"
    using step_isAlive [of p w e c] dead assms(2) lt by auto
  show ?thesis
  proof (cases e)
    case (Connection uuid)
    then show ?thesis using lt dead tr
      by (auto simp: missing_def step_def on_connection_def Let_def)
  next
    case (Message ws parsed)
    have q: "quiet w (step p w e)" using Message by (simp add: step_def on_message_quiet)
    show ?thesis using lt tr dead' quiet_D(1,2,5) [OF q] by (auto simp: missing_def)
  next
    case (Pong ws)
    then show ?thesis using lt dead tr assms(2) by (auto simp: missing_def step_def on_pong_def)
  next
    case (ErrorEvent ws)
    have q: "quiet w (step p w e)" using ErrorEvent by (simp add: error_listener_quiet)
    show ?thesis using lt tr dead' quiet_D(1,2,5) [OF q] by (auto simp: missing_def)
  next
    case (CloseEvent ws)
    then show ?thesis using lt tr dead' by (auto simp: missing_def emit_close_socks)
  next
    case HeartbeatTick
    then show ?thesis using lt tr dead' heartbeat_closed_stays
      by (auto simp: missing_def step_def)
  qed
qed

lemma run_missing:
  "missing c w \<Longrightarrow> Pong c \<notin> set es \<Longrightarrow> missing c (run p w es)"
proof (induction es arbitrary: w)
  case Nil then show ?case by (simp add: run_def)
next
  case (Cons e es)
  have "missing c (step p w e)" using Cons.prems by (auto intro: step_missing)
  then have "missing c (run p (step p w e) es)" using Cons by simp
  then show ?case by (simp add: run_def)
qed















section \<open>Every reachable state is well formed\<close>

lemma wf_send [simp]: "wf (sendWsMessage w c m) = wf w"
  by (simp add: wf_def)

lemma wf_terminate [simp]: "wf (terminate w c) = wf w"
  by (simp add: wf_def)

lemma wf_same_frame: "same_frame w w' \<Longrightarrow> wf w \<Longrightarrow> wf w'"
  by (simp add: wf_def same_frame_def)

lemma wf_initial: "wf initial"
  by (simp add: wf_def initial_def)

lemma wf_on_connection: "wf w \<Longrightarrow> wf (on_connection w uuid)"
  by (auto simp: wf_def on_connection_def Let_def less_Suc_eq)

lemma wf_on_pong: "wf w \<Longrightarrow> wf (on_pong w c)"
  by (auto simp: wf_def on_pong_def)

lemma wf_login_case: "wf w \<Longrightarrow> login_case w ws m = Returned w' \<Longrightarrow> wf w'"
proof -
  assume w: "wf w" and a: "login_case w ws m = Returned w'"
  have reg: "wf (w\<lparr>conns := (conns w)(ws := (conns w ws)\<lparr>clientId := None, userId := Some u\<rparr>),
          clients := AList.update u ws (clients w)\<rparr>)" if "trim u \<noteq> []" for u
    using w that set_update_subset [of u ws "clients w"] by (auto simp: wf_def)
  show ?thesis
    using a w reg by (auto simp: login_case_def Let_def split: option.splits json.splits if_splits)
qed

lemma wf_register_push_resume:
  "wf w \<Longrightarrow> register_push_resume w ws m saved = Returned w' \<Longrightarrow> wf w'"
  by (auto simp: register_push_resume_def split: sum.splits)

lemma wf_register_push_case: "wf w \<Longrightarrow> register_push_case p w ws m = Returned w' \<Longrightarrow> wf w'"
  by (auto simp: register_push_case_def Let_def dest: wf_register_push_resume
           split: option.splits json.splits if_splits)

lemma wf_offline_resume:
  "wf w \<Longrightarrow> offline_resume w ws m t looked = Returned w' \<Longrightarrow> wf w'"
  by (auto simp: offline_resume_def split: sum.splits if_splits)

lemma wf_offline_branch: "wf w \<Longrightarrow> offline_branch p w ws m t = Returned w' \<Longrightarrow> wf w'"
  by (auto simp: offline_branch_def dest: wf_offline_resume)

lemma wf_relay_case: "wf w \<Longrightarrow> relay_case p w ws m = Returned w' \<Longrightarrow> wf w'"
  by (auto simp: relay_case_def Let_def dest: wf_offline_branch
           split: option.splits json.splits if_splits)

lemma wf_default_case: "wf w \<Longrightarrow> default_case w ws m = Returned w' \<Longrightarrow> wf w'"
  by (auto simp: default_case_def split: option.splits)

lemma wf_handler: "wf w \<Longrightarrow> handleWebSocketMessage p w ws m = Returned w' \<Longrightarrow> wf w'"
  using handler_returned_switch [of p w ws m w']
  by (auto simp: switch_body_def
           dest: wf_login_case wf_register_push_case wf_relay_case wf_default_case
           split: if_splits)

lemma wf_on_message: "wf w \<Longrightarrow> wf (on_message p w ws parsed)"
proof (cases parsed)
  case (Inl e)
  then show "wf w \<Longrightarrow> ?thesis" by (simp add: on_message_def)
next
  case (Inr m)
  assume w: "wf w"
  from handler_cases [of p w ws m] show ?thesis
  proof
    assume "\<exists>w'. handleWebSocketMessage p w ws m = Returned w'"
    then obtain w' where h: "handleWebSocketMessage p w ws m = Returned w'" ..
    show ?thesis
      using wf_handler [OF w h] w by (simp add: on_message_def Inr h)
  next
    assume "handleWebSocketMessage p w ws m = Thrown cannot_convert w \<and> to_string (type m) = None"
    then show ?thesis using w by (simp add: on_message_def Inr)
  qed
qed

lemma wf_unregister: "wf w \<Longrightarrow> wf (w\<lparr>clients := AList.delete u (clients w)\<rparr>)"
  by (auto simp: wf_def AList.delete_eq)

lemma wf_close_listener: "wf w \<Longrightarrow> wf (close_listener w c)"
  using wf_same_frame [OF broadcast_frame] wf_unregister
  by (auto simp: close_listener_def split: option.split)

lemma wf_error_listener: "wf w \<Longrightarrow> wf (error_listener w c)"
  using wf_same_frame [OF broadcast_frame] wf_unregister
  by (auto simp: error_listener_def Let_def split: option.split)

lemma wf_emit_close: "wf w \<Longrightarrow> wf (emit_close w c)"
proof -
  assume "wf w"
  then have "wf (w\<lparr>conns := (conns w)(c := (conns w c)\<lparr>readyState := CLOSED\<rparr>),
               wss_clients := removeAll c (wss_clients w)\<rparr>)"
    by (auto simp: wf_def distinct_removeAll)
  then show ?thesis unfolding emit_close_def by (rule wf_close_listener)
qed

lemma wf_heartbeat: "wf w \<Longrightarrow> wf (heartbeat w)"
  by (simp add: wf_def)

lemma wf_step: "wf w \<Longrightarrow> wf (step p w e)"
  by (cases e)
     (simp_all add: step_def wf_on_connection wf_on_message wf_on_pong wf_error_listener
        wf_emit_close wf_heartbeat)

lemma wf_run: "wf w \<Longrightarrow> wf (run p w es)"
proof (induction es arbitrary: w)
  case Nil then show ?case by (simp add: run_def)
next
  case (Cons e es)
  have "wf (run p (step p w e) es)" using Cons wf_step by blast
  then show ?case by (simp add: run_def)
qed

text \<open>
  In particular a socket never holds both identities or neither, whatever it is sent.
\<close>

lemma identity_exactly_one:
  assumes "c < next_conn (run p initial es)"
  shows "(clientId (conns (run p initial es) c) = None)
           \<noteq> (userId (conns (run p initial es) c) = None)"
  using wf_run [OF wf_initial, of p es] assms by (simp add: wf_def)

section \<open>Facts about the concrete runs\<close>

lemmas eval_defs = run_def step_def on_connection_def on_message_def handleWebSocketMessage_def
  catch_all_def switch_body_def login_case_def login_envelope_def initial_def empty_store_def
  trim_def is_white_def sendWsMessage_def terminate_def Let_def no_client_def
  received_line_def

lemma trim_alice: "trim ''alice'' = ''alice''" by (simp add: trim_def is_white_def)

lemma one_socket_facts:
  "clients one_socket = []"
  "userId (conns one_socket 0) = None"
  "clientId (conns one_socket 0) = Some ''c-0''"
  "readyState (conns one_socket 0) = OPEN"
  "sent (conns one_socket 0) = []"
  by (simp_all add: one_socket_def eval_defs)

lemma alice_online_facts:
  "clients alice_online = [(''alice'', 0)]"
  "userId (conns alice_online 0) = Some ''alice''"
  "clientId (conns alice_online 0) = None"
  "readyState (conns alice_online 0) = OPEN"
  "sent (conns alice_online 0) = [login_success ''alice'']"
  "next_conn alice_online = 1"
  "wss_clients alice_online = [0]"
  by (simp_all add: alice_online_def eval_defs)


lemma alice_bob_online_facts:
  "clients alice_bob_online = [(''alice'', 0), (''bob'', Suc 0)]"
  "userId (conns alice_bob_online 0) = Some ''alice''"
  "userId (conns alice_bob_online (Suc 0)) = Some ''bob''"
  "readyState (conns alice_bob_online 0) = OPEN"
  "readyState (conns alice_bob_online (Suc 0)) = OPEN"
  "sent (conns alice_bob_online (Suc 0)) = [login_success ''bob'']"
  "sent (conns alice_bob_online 0) = [login_success ''alice'']"
  "wss_clients alice_bob_online = [0, Suc 0]"
  "next_conn alice_bob_online = Suc (Suc 0)"
  "isAlive (conns alice_bob_online 0)"
  "isAlive (conns alice_bob_online (Suc 0))"
  by (simp_all add: alice_bob_online_def alice_online_def eval_defs)

lemma after_error_facts:
  "clients (error_listener alice_bob_online 0) = [(''bob'', Suc 0)]"
  "sent (conns (error_listener alice_bob_online 0) (Suc 0))
     = [login_success ''bob'', user_left ''alice'']"
  "userId (conns (error_listener alice_bob_online 0) 0) = Some ''alice''"
  "readyState (conns (error_listener alice_bob_online 0) 0) = CLOSING"
  "readyState (conns (error_listener alice_bob_online 0) (Suc 0)) = OPEN"
  "next_conn (error_listener alice_bob_online 0) = Suc (Suc 0)"
  by (simp_all add: error_listener_def broadcast_def alice_bob_online_facts AList.delete_eq
        sendWsMessage_def terminate_def Let_def)


section \<open>Login\<close>



text \<open>
  Claim C3: a connection holds exactly one of provisional id and user id at all times
  (this half is \<open>identity_exactly_one\<close>), and once it is identified no later login
  changes its user id or registers it under another key. The handler has no such guard.
  Here socket 0, identified and registered as alice, sends a login for bob: its user id
  becomes bob and the registry holds it under both keys; when the socket closes, only
  bob is removed and alice stays registered to a closed socket.
\<close>

theorem relogin_changes_identity:
  "userId (conns alice_online 0) = Some ''alice''
   \<and> clients alice_online = [(''alice'', 0)]
   \<and> userId (conns relogin_state 0) = Some ''bob''
   \<and> clients relogin_state = [(''alice'', 0), (''bob'', 0)]
   \<and> clients (emit_close relogin_state 0) = [(''alice'', 0)]
   \<and> readyState (conns (emit_close relogin_state 0) 0) = CLOSED"
proof -
  have tb: "trim ''bob'' \<noteq> []" by (simp add: trim_def is_white_def)
  have h: "handleWebSocketMessage empty_store alice_online 0 (login_envelope ''bob'')
       = Returned (sendWsMessage
             (alice_online\<lparr>conns := (conns alice_online)
                  (0 := (conns alice_online 0)\<lparr>clientId := None, userId := Some ''bob''\<rparr>),
                clients := AList.update ''bob'' 0 (clients alice_online)\<rparr>) 0
             (login_success ''bob''))"
    using login_case_fresh [of "login_envelope ''bob''" "''bob''" alice_online 0] tb
    by (simp add: handler_login login_envelope_def alice_online_facts)
  have r: "userId (conns relogin_state 0) = Some ''bob''"
      "clients relogin_state = [(''alice'', 0), (''bob'', 0)]"
    unfolding relogin_state_def h by (simp_all add: alice_online_facts)
  have reg: "map_of (clients relogin_state) ''bob'' \<noteq> None" by (simp add: r)
  have ne: "''bob'' \<noteq> []" by simp
  show ?thesis
    using emit_close_registered(1,3) [OF r(1) ne reg]
    by (simp add: r alice_online_facts AList.delete_eq)
qed

text \<open>
  Claim C4, as the code has it: for every login on a connection that is not yet
  identified, carrying a string user id \<open>u\<close> that is not blank (not empty once
  \<open>trim\<close> has stripped it) and has no entry in the registry, the handler removes the
  provisional id, sets the user id to \<open>u\<close>, appends the entry \<open>u \<mapsto> ws\<close> to the
  registry, whose size grows by exactly one, and replies \<open>login_success\<close> with payload
  user id \<open>u\<close> (the frame is written when the socket is open). No other socket changes.
\<close>

theorem login_registers_fresh_user:
  assumes "type m = Some (JStr Login)" and "get_prop (payload m) ''userId'' = Some (JStr u)"
    and "trim u \<noteq> []" and "map_of (clients w) u = None" and "userId (conns w ws) = None"
  shows "\<exists>w'. handleWebSocketMessage p w ws m = Returned w'
           \<and> clientId (conns w' ws) = None
           \<and> userId (conns w' ws) = Some u
           \<and> clients w' = clients w @ [(u, ws)]
           \<and> map_of (clients w') u = Some ws
           \<and> length (clients w') = length (clients w) + 1
           \<and> sent (conns w' ws) = sent (conns w ws) @
               (if readyState (conns w ws) = OPEN then [login_success u] else [])
           \<and> type (login_success u) = Some (JStr LoginSuccess)
           \<and> get_prop (payload (login_success u)) ''userId'' = Some (JStr u)
           \<and> (\<forall>d. d \<noteq> ws \<longrightarrow> conns w' d = conns w d)"
proof -
  have "handleWebSocketMessage p w ws m =
           Returned (sendWsMessage
             (w\<lparr>conns := (conns w)(ws := (conns w ws)\<lparr>clientId := None, userId := Some u\<rparr>),
                clients := AList.update u ws (clients w)\<rparr>) ws (login_success u))"
    using login_case_fresh [OF assms(2,3,4)] by (simp add: handler_login [OF assms(1)])
  then show ?thesis
    using assms(4)
    by (simp add: sent_sendWsMessage conns_sendWsMessage_other update_absent login_success_def
          map_add_def stringify_def)
qed

theorem login_registers_fresh_user_witness:
  "\<exists>w'. handleWebSocketMessage empty_store one_socket 0 (login_envelope ''alice'') = Returned w'
      \<and> clientId (conns w' 0) = None \<and> userId (conns w' 0) = Some ''alice''
      \<and> clients w' = [(''alice'', 0)]
      \<and> sent (conns w' 0) = [login_success ''alice'']"
proof -
  have "\<exists>w'. handleWebSocketMessage empty_store one_socket 0 (login_envelope ''alice'') = Returned w'
      \<and> clientId (conns w' 0) = None \<and> userId (conns w' 0) = Some ''alice''
      \<and> clients w' = clients one_socket @ [(''alice'', 0)]
      \<and> map_of (clients w') ''alice'' = Some 0
      \<and> length (clients w') = length (clients one_socket) + 1
      \<and> sent (conns w' 0) = sent (conns one_socket 0) @
               (if readyState (conns one_socket 0) = OPEN then [login_success ''alice''] else [])
      \<and> type (login_success ''alice'') = Some (JStr LoginSuccess)
      \<and> get_prop (payload (login_success ''alice'')) ''userId'' = Some (JStr ''alice'')
      \<and> (\<forall>d. d \<noteq> 0 \<longrightarrow> conns w' d = conns one_socket d)"
    by (rule login_registers_fresh_user)
       (simp_all add: login_envelope_def trim_alice one_socket_facts)
  then obtain w' where
    "handleWebSocketMessage empty_store one_socket 0 (login_envelope ''alice'') = Returned w'"
    "clientId (conns w' 0) = None" "userId (conns w' 0) = Some ''alice''"
    "clients w' = clients one_socket @ [(''alice'', 0)]"
    "sent (conns w' 0) = sent (conns one_socket 0) @
               (if readyState (conns one_socket 0) = OPEN then [login_success ''alice''] else [])"
    by blast
  then show ?thesis by (simp add: one_socket_facts)
qed

text \<open>
  Claim C4 as stated asks only for a non-empty string. The string of one space is
  non-empty and free, the connection is not identified, and yet the handler answers with
  the validation error: nothing is registered, the socket keeps its provisional id and
  gets no user id.
\<close>

theorem login_blank_user_id_refused:
  "'' '' \<noteq> [] \<and> map_of (clients one_socket) '' '' = None \<and> userId (conns one_socket 0) = None
   \<and> handleWebSocketMessage empty_store one_socket 0 (login_envelope '' '')
       = Returned (sendWsMessage one_socket 0
           (error_reply ''Valid User ID is required for login'' (Some (JStr Login))))
   \<and> clients (state_of (handleWebSocketMessage empty_store one_socket 0 (login_envelope '' ''))) = []
   \<and> userId (conns (state_of
         (handleWebSocketMessage empty_store one_socket 0 (login_envelope '' ''))) 0) = None
   \<and> clientId (conns (state_of
         (handleWebSocketMessage empty_store one_socket 0 (login_envelope '' ''))) 0) = Some ''c-0''
   \<and> sent (conns (state_of
         (handleWebSocketMessage empty_store one_socket 0 (login_envelope '' ''))) 0)
       = [error_reply ''Valid User ID is required for login'' (Some (JStr Login))]"
proof -
  have h: "handleWebSocketMessage empty_store one_socket 0 (login_envelope '' '')
       = Returned (sendWsMessage one_socket 0
           (error_reply ''Valid User ID is required for login'' (Some (JStr Login))))"
    by (simp add: handleWebSocketMessage_def catch_all_def switch_body_def login_case_def
          login_envelope_def trim_def is_white_def)
  show ?thesis
    unfolding h by (simp add: one_socket_facts sent_sendWsMessage)
qed



section \<open>Relaying\<close>

text \<open>
  Claim C2, as the code has it: when a relay envelope (offer, answer, candidate,
  message_request) is forwarded, that is when the originator is identified as \<open>u\<close>,
  target and payload are present and the target's registry entry is an open socket, the
  target receives exactly one envelope, the one \<^verbatim>\<open>JSON.stringify\<close> writes for the
  original with \<open>sender\<close> replaced. Its \<open>sender\<close> is \<open>u\<close>, the user id the server
  recorded for the originator, whatever \<open>sender\<close> the originator wrote; its type and
  target are those of the original; its payload and every other field are those of the
  original as \<^verbatim>\<open>JSON.stringify\<close> writes them, which is the original value whenever
  that holds no infinite number and no negative zero. No other socket and no registry
  entry changes.
\<close>

theorem relay_forward_sender:
  assumes rel: "type m = Some (JStr Offer) \<or> type m = Some (JStr Answer)
      \<or> type m = Some (JStr Candidate) \<or> type m = Some (JStr MessageRequest)"
    and uid: "userId (conns w ws) = Some u" "u \<noteq> []"
    and tgt: "target m = Some (JStr t)" "t \<noteq> []"
    and pl: "truthy (payload m)"
    and reg: "map_of (clients w) t = Some tc"
    and live: "readyState (conns w tc) = OPEN"
  shows "\<exists>w' fwd. handleWebSocketMessage p w ws m = Returned w'
           \<and> sent (conns w' tc) = sent (conns w tc) @ [fwd]
           \<and> sender fwd = Some (JStr u)
           \<and> type fwd = type m \<and> target fwd = target m
           \<and> payload fwd = map_option written (payload m)
           \<and> originalType fwd = map_option written (originalType m)
           \<and> others fwd = map (map_prod id written) (others m)
           \<and> (\<forall>v. payload m = Some v \<and> plain v \<longrightarrow> payload fwd = payload m)
           \<and> (\<forall>d. d \<noteq> tc \<longrightarrow> conns w' d = conns w d)
           \<and> clients w' = clients w"
proof -
  let ?fwd = "stringify (m\<lparr>sender := Some (JStr u)\<rparr>)"
  have h: "handleWebSocketMessage p w ws m
             = Returned (sendWsMessage w tc (m\<lparr>sender := Some (JStr u)\<rparr>))"
    using relay_case_forward [OF uid tgt pl reg live] by (simp add: handler_relay [OF rel])
  have f: "sender ?fwd = Some (JStr u)" "type ?fwd = type m" "target ?fwd = target m"
      "payload ?fwd = map_option written (payload m)"
      "originalType ?fwd = map_option written (originalType m)"
      "others ?fwd = map (map_prod id written) (others m)"
    using relay_type_written [OF rel] tgt by (simp_all add: stringify_def)
  have pv: "payload ?fwd = payload m" if "payload m = Some v" "plain v" for v
    using that by (simp add: f plain_written)
  show ?thesis
    unfolding h using live f pv
    by (intro exI [of _ "sendWsMessage w tc (m\<lparr>sender := Some (JStr u)\<rparr>)"] exI [of _ ?fwd])
       (simp add: sent_sendWsMessage conns_sendWsMessage_other)
qed

theorem relay_forward_sender_witness:
  "\<exists>w' fwd. handleWebSocketMessage empty_store alice_bob_online 0 offer_to_bob = Returned w'
      \<and> sender offer_to_bob = Some (JStr ''mallory'')
      \<and> sent (conns w' (Suc 0)) = [login_success ''bob'', fwd]
      \<and> sender fwd = Some (JStr ''alice'')
      \<and> payload fwd = Some (JObj [(''sdp'', JStr ''v=0'')])
      \<and> others fwd = [(''seq'', JNum ''7'')]"
  using relay_forward_sender
    [of offer_to_bob alice_bob_online 0 "''alice''" "''bob''" "Suc 0" empty_store]
  by (auto simp: alice_bob_online_facts offer_to_bob_def)

text \<open>
  Claim C2 as stated has the payload arrive verbatim. Alice and bob are online, and
  alice sends the frame \<^verbatim>\<open>{"type":"offer","target":"bob","payload":1e309}\<close>. The
  parser reads the payload as \<^verbatim>\<open>Infinity\<close>, which is truthy, so the envelope is
  forwarded; \<^verbatim>\<open>JSON.stringify\<close> writes \<^verbatim>\<open>Infinity\<close> as \<^verbatim>\<open>null\<close>, and bob
  receives an offer whose payload is \<^verbatim>\<open>null\<close>.
\<close>

theorem relay_overflow_payload_nulled:
  "payload overflow_offer = Some (JNum ''Infinity'')
   \<and> truthy (payload overflow_offer)
   \<and> handleWebSocketMessage empty_store alice_bob_online 0 overflow_offer
       = Returned (sendWsMessage alice_bob_online (Suc 0)
           (overflow_offer\<lparr>sender := Some (JStr ''alice'')\<rparr>))
   \<and> sent (conns (state_of
         (handleWebSocketMessage empty_store alice_bob_online 0 overflow_offer)) (Suc 0))
       = [login_success ''bob'',
          \<lparr>type = Some (JStr Offer), payload = Some JNull, target = Some (JStr ''bob''),
           sender = Some (JStr ''alice''), originalType = None, others = []\<rparr>]"
proof -
  have h: "handleWebSocketMessage empty_store alice_bob_online 0 overflow_offer
       = Returned (sendWsMessage alice_bob_online (Suc 0)
           (overflow_offer\<lparr>sender := Some (JStr ''alice'')\<rparr>))"
    using relay_case_forward [of alice_bob_online 0 "''alice''" overflow_offer "''bob''" "Suc 0"
        empty_store]
    by (simp add: handler_relay overflow_offer_def alice_bob_online_facts)
  show ?thesis
    unfolding h
    by (simp add: sent_sendWsMessage alice_bob_online_facts)
       (simp add: overflow_offer_def stringify_def)
qed



section \<open>The dispatch boundary\<close>

text \<open>
  Whatever escapes the switch reaches the outer \<^verbatim>\<open>catch\<close>, whose first statement
  prints the type; the switch throws only when the type cannot be printed, so the
  \<^verbatim>\<open>catch\<close> never gets to its reply. The failures of the store are caught inside
  their cases and answered from there.
\<close>

lemma outer_catch_cannot_reply:
  assumes "switch_body p w ws m = Thrown e w1"
  shows "catch_all ws m (Thrown e w1) = Thrown cannot_convert w1"
  using switch_body_cases [of p w ws m] assms by (auto simp: catch_all_def)

lemma store_failure_replies:
  "register_push_resume w ws m (Inl e)
     = Returned (sendWsMessage w ws
         (error_reply ''Failed to save push token on server'' (type m)))"
  "offline_resume w ws m t (Inl e)
     = Returned (sendWsMessage w ws
         (error_reply (''Server error checking offline status for '' @ t @ ''.'') (type m)))"
  by (simp_all add: register_push_resume_def offline_resume_def)

text \<open>
  Claim C8: if any step of handling an envelope raises an exception, the outer
  \<^verbatim>\<open>catch\<close> replies a server error whose \<open>originalType\<close> is the envelope's type,
  and the handler never propagates an exception to its caller. Here an open, anonymous
  socket sends the frame \<^verbatim>\<open>{"type":{"toString":0}}\<close>. The type is truthy and matches
  no case; the default case prints it in its log line, which throws a
  \<^verbatim>\<open>TypeError\<close>; the outer \<^verbatim>\<open>catch\<close> prints it again in its own log line, which
  throws again. The handler ends with that exception, and nothing has been sent.
\<close>

theorem unprintable_type_rejects:
  "truthy (type unprintable_envelope)
   \<and> readyState (conns one_socket 0) = OPEN
   \<and> switch_body empty_store one_socket 0 unprintable_envelope
       = Thrown cannot_convert one_socket
   \<and> handleWebSocketMessage empty_store one_socket 0 unprintable_envelope
       = Thrown cannot_convert one_socket
   \<and> sent (conns (state_of
         (handleWebSocketMessage empty_store one_socket 0 unprintable_envelope)) 0) = []"
  by (simp add: handleWebSocketMessage_def catch_all_def switch_body_def default_case_def
        unprintable_envelope_def one_socket_facts)

section \<open>Departure\<close>

text \<open>
  For an identified connection \<open>c\<close> registered under \<open>u\<close>, when its close event, its
  error event, or both in either order fire with no other event in between: the
  listener broadcasts on the registry from which \<open>u\<close> is already deleted; afterwards
  \<open>u\<close> is absent from the registry; and over the whole sequence every open socket
  other than \<open>c\<close> has received one \<open>user_left\<close> with user id \<open>u\<close> for each remaining
  registry entry that points to it, which is exactly one for each remaining registered
  socket when no socket is registered twice. The departing socket and unregistered
  sockets receive nothing.
\<close>

lemma departure_cleanup:
  assumes id: "userId (conns w c) = Some u" "u \<noteq> []"
    and reg: "map_of (clients w) u = Some c"
    and es: "es \<in> {[CloseEvent c], [ErrorEvent c], [ErrorEvent c, CloseEvent c],
                     [CloseEvent c, ErrorEvent c]}"
  shows "close_listener w c
           = broadcast (w\<lparr>clients := AList.delete u (clients w)\<rparr>) (user_left u) (Some c)
       \<and> clients (run p w es) = AList.delete u (clients w)
       \<and> map_of (clients (run p w es)) u = None
       \<and> (\<forall>d. sent (conns (run p w es) d) = sent (conns w d) @
             replicate (if d \<noteq> c \<and> readyState (conns w d) = OPEN
                        then length (filter (\<lambda>kc. snd kc = d) (AList.delete u (clients w)))
                        else 0)
               (user_left u))
       \<and> (distinct (map snd (clients w)) \<longrightarrow>
            (\<forall>d. sent (conns (run p w es) d) = sent (conns w d) @
               (if d \<noteq> c \<and> readyState (conns w d) = OPEN
                   \<and> d \<in> snd ` set (AList.delete u (clients w))
                then [user_left u] else [])))"
proof -
  have reg': "map_of (clients w) u \<noteq> None" using reg by simp
  note ev = departure_events [OF id reg' es]
  have once: "sent (conns (run p w es) d) = sent (conns w d) @
               (if d \<noteq> c \<and> readyState (conns w d) = OPEN
                   \<and> d \<in> snd ` set (AList.delete u (clients w))
                then [user_left u] else [])"
    if "distinct (map snd (clients w))" for d
    using count_entries_distinct [OF distinct_snd_delete [OF that], of d u]
    by (simp add: ev(2) [of p d])
  show ?thesis
    using close_listener_registered [OF id reg'] ev once by simp
qed

lemma departure_cleanup_example:
  "map_of (clients (run empty_store alice_bob_online [ErrorEvent 0, CloseEvent 0])) ''alice'' = None
   \<and> sent (conns (run empty_store alice_bob_online [ErrorEvent 0, CloseEvent 0]) (Suc 0))
       = [login_success ''bob'', user_left ''alice'']
   \<and> sent (conns (run empty_store alice_bob_online [ErrorEvent 0, CloseEvent 0]) 0)
       = [login_success ''alice'']"
proof -
  have "\<forall>d. sent (conns (run empty_store alice_bob_online [ErrorEvent 0, CloseEvent 0]) d)
          = sent (conns alice_bob_online d) @
             replicate (if d \<noteq> 0 \<and> readyState (conns alice_bob_online d) = OPEN
                        then length (filter (\<lambda>kc. snd kc = d)
                               (AList.delete ''alice'' (clients alice_bob_online)))
                        else 0)
               (user_left ''alice'')"
    and "map_of (clients (run empty_store alice_bob_online [ErrorEvent 0, CloseEvent 0]))
           ''alice'' = None"
    using departure_cleanup
      [of alice_bob_online 0 "''alice''" "[ErrorEvent 0, CloseEvent 0]" empty_store]
    by (simp_all add: alice_bob_online_facts del: run_two)
  then show ?thesis
    by (simp add: alice_bob_online_facts AList.delete_eq del: run_two)
qed

text \<open>
  Claim C5: for an identified connection registered under \<open>u\<close>, a close or error event
  removes its entry before the notice is sent, exactly one \<open>user_left\<close> for \<open>u\<close> is
  broadcast to the remaining registered connections even if both its error and its
  close event fire, and \<open>u\<close> is absent afterwards. The listeners guard the cleanup by
  asking whether the user id is a key of the registry, not whether the entry is this
  socket's. Here socket 0 holds alice and socket 1 holds bob. Socket 0 raises an error:
  alice is removed and bob is told. A new socket 2 logs in as alice. Then the close event
  of socket 0 arrives: it finds alice in the registry, removes the entry of socket 2 and
  tells bob a second time. Bob has received two notices for the one departure, and
  socket 2, open and identified as alice, is no longer registered.
\<close>

theorem departure_notice_twice:
  "map_of (clients alice_bob_online) ''alice'' = Some 0
   \<and> userId (conns alice_bob_online 0) = Some ''alice''
   \<and> sent (conns alice_bob_online (Suc 0)) = [login_success ''bob'']
   \<and> sent (conns reconnect_race (Suc 0))
       = [login_success ''bob'', user_left ''alice'', user_left ''alice'']
   \<and> userId (conns reconnect_race 2) = Some ''alice''
   \<and> readyState (conns reconnect_race 2) = OPEN
   \<and> sent (conns reconnect_race 2) = [login_success ''alice'']
   \<and> clients reconnect_race = [(''bob'', Suc 0)]"
proof -
  let ?w1 = "error_listener alice_bob_online 0"
  let ?w2 = "on_connection ?w1 ''c-2''"
  let ?w3 = "on_message empty_store ?w2 2 (Inr (login_envelope ''alice''))"
  have r: "reconnect_race = emit_close ?w3 0"
    by (simp add: reconnect_race_def run_def step_def)
  have w2: "clients ?w2 = [(''bob'', Suc 0)]"
      "sent (conns ?w2 (Suc 0)) = [login_success ''bob'', user_left ''alice'']"
      "userId (conns ?w2 0) = Some ''alice''"
      "readyState (conns ?w2 (Suc 0)) = OPEN"
      "readyState (conns ?w2 2) = OPEN"
      "userId (conns ?w2 2) = None"
      "sent (conns ?w2 2) = []"
    by (simp_all add: on_connection_def Let_def after_error_facts)
  have h: "handleWebSocketMessage empty_store ?w2 2 (login_envelope ''alice'')
       = Returned (sendWsMessage
             (?w2\<lparr>conns := (conns ?w2)(2 := (conns ?w2 2)\<lparr>clientId := None, userId := Some ''alice''\<rparr>),
                clients := AList.update ''alice'' 2 (clients ?w2)\<rparr>) 2 (login_success ''alice''))"
    using login_case_fresh [of "login_envelope ''alice''" "''alice''" ?w2 2]
    by (simp add: handler_login login_envelope_def w2 trim_alice)
  have w3: "clients ?w3 = [(''bob'', Suc 0), (''alice'', 2)]"
      "sent (conns ?w3 (Suc 0)) = [login_success ''bob'', user_left ''alice'']"
      "userId (conns ?w3 0) = Some ''alice''"
      "readyState (conns ?w3 (Suc 0)) = OPEN"
      "readyState (conns ?w3 2) = OPEN"
      "userId (conns ?w3 2) = Some ''alice''"
      "sent (conns ?w3 2) = [login_success ''alice'']"
proof -
    have ty: "truthy (type (login_envelope ''alice''))"
        "received_line (login_envelope ''alice'') \<noteq> None"
      by (simp_all add: login_envelope_def received_line_def)
    have m: "?w3 = sendWsMessage
             (?w2\<lparr>conns := (conns ?w2)(2 := (conns ?w2 2)\<lparr>clientId := None, userId := Some ''alice''\<rparr>),
                clients := AList.update ''alice'' 2 (clients ?w2)\<rparr>) 2 (login_success ''alice'')"
      by (simp add: on_message_def ty h)
    show "clients ?w3 = [(''bob'', Suc 0), (''alice'', 2)]"
      "sent (conns ?w3 (Suc 0)) = [login_success ''bob'', user_left ''alice'']"
      "userId (conns ?w3 0) = Some ''alice''"
      "readyState (conns ?w3 (Suc 0)) = OPEN"
      "readyState (conns ?w3 2) = OPEN"
      "userId (conns ?w3 2) = Some ''alice''"
      "sent (conns ?w3 2) = [login_success ''alice'']"
      unfolding m by (simp_all add: w2 sent_sendWsMessage)
  qed
  have reg: "map_of (clients ?w3) ''alice'' \<noteq> None" by (simp add: w3)
  have ne: "''alice'' \<noteq> []" by simp
  note c = emit_close_registered [OF w3(3) ne reg]
  have f: "clients reconnect_race = [(''bob'', Suc 0)]"
    unfolding r by (simp add: c(1) w3 AList.delete_eq)
  have s1: "sent (conns reconnect_race (Suc 0))
       = [login_success ''bob'', user_left ''alice'', user_left ''alice'']"
    unfolding r by (simp add: c(4) [of "Suc 0"] w3 AList.delete_eq)
  have s2: "sent (conns reconnect_race 2) = [login_success ''alice'']"
    unfolding r by (simp add: c(4) [of 2] w3 AList.delete_eq)
  have u: "userId (conns reconnect_race 2) = Some ''alice''"
    unfolding r by (simp add: c(2) [of 2] w3)
  have o: "readyState (conns reconnect_race 2) = OPEN"
    unfolding r by (simp add: emit_close_socks w3)
  show ?thesis
    using f s1 s2 u o by (simp add: alice_bob_online_facts)
qed

text \<open>
  Claim C9: a close or error event on a connection that was never identified, or whose
  user id is absent from the registry, leaves the registry as it is and sends nothing to
  anyone; the listeners are total, so nothing is raised. Deleting an absent key from the
  registry is the identity.
\<close>

theorem unregistered_departure_noop:
  assumes "userId (conns w c) = None \<or>
           (\<exists>u. userId (conns w c) = Some u \<and> map_of (clients w) u = None)"
    and "e = CloseEvent c \<or> e = ErrorEvent c"
  shows "clients (step p w e) = clients w
       \<and> (\<forall>d. sent (conns (step p w e) d) = sent (conns w d))
       \<and> (\<forall>k. map_of (clients w) k = None \<longrightarrow> AList.delete k (clients w) = clients w)"
  using assms(2) emit_close_idle [OF assms(1)] error_listener_idle_facts [OF assms(1)]
  by (auto simp: delete_absent)

theorem unregistered_departure_noop_witness:
  "clients (step empty_store one_socket (CloseEvent 0)) = []
   \<and> sent (conns (step empty_store one_socket (CloseEvent 0)) 0) = []"
  using unregistered_departure_noop [of one_socket 0 "CloseEvent 0" empty_store]
  by (simp add: one_socket_facts del: step_CloseEvent)

section \<open>Heartbeat reclamation\<close>



end
